theory Spec2Isabelle
  imports Main "HOL-Library.Multiset" "HOL-Library.List_Lexorder" "HOL-Library.Char_ord"
begin

section \<open>Data model (db/schema.py)\<close>

text \<open>
  Timestamps, dates and week keys are stored in TEXT columns and compared by the
  database as strings, so they are strings here, ordered lexicographically by character
  code. Identifiers are Python integers. The three values ever written to a status column
  are the default \<^verbatim>\<open>pending\<close> and the two literals passed by the reaction handlers.
\<close>

datatype status = Pending | Confirmed | Declined

record pool_row =
  pool_guild_id :: int
  pool_user_id :: int
  joined_at :: string
  skip_until :: "string option"
  sat_out_at :: "string option"

record match_row =
  match_id :: int
  match_guild_id :: int
  week_start :: string
  user1_id :: int
  user2_id :: int
  thread_id :: "int option"
  user1_status :: status
  user2_status :: status
  reminder_count :: int
  created_at :: string
  completed_at :: "string option"

text \<open>The two tables, each a list of rows in the order \<^verbatim>\<open>fetch_all\<close> returns them.\<close>

record database =
  one_on_one_pool :: "pool_row list"
  one_on_one_matches :: "match_row list"

text \<open>The primary key of the pool table is the pair (guild, user).\<close>

definition pool_key_ok :: "database \<Rightarrow> bool" where
  "pool_key_ok db =
     distinct (map (\<lambda>r. (pool_guild_id r, pool_user_id r)) (one_on_one_pool db))"

section \<open>Pool management (db/actions.py)\<close>

definition get_one_on_one_pool_status :: "database \<Rightarrow> int \<Rightarrow> int \<Rightarrow> pool_row option" where
  "get_one_on_one_pool_status db guild user =
     find (\<lambda>r. pool_guild_id r = guild \<and> pool_user_id r = user) (one_on_one_pool db)"

definition set_one_on_one_skip :: "database \<Rightarrow> int \<Rightarrow> int \<Rightarrow> string option \<Rightarrow> database" where
  "set_one_on_one_skip db guild user until =
     db\<lparr>one_on_one_pool :=
          map (\<lambda>r. if pool_guild_id r = guild \<and> pool_user_id r = user
                   then r\<lparr>skip_until := until\<rparr> else r) (one_on_one_pool db)\<rparr>"

definition not_skipping :: "string \<Rightarrow> pool_row \<Rightarrow> bool" where
  "not_skipping week r =
     (case skip_until r of None \<Rightarrow> True | Some s \<Rightarrow> s \<le> week)"

definition get_available_pool_members :: "database \<Rightarrow> int \<Rightarrow> string \<Rightarrow> int list" where
  "get_available_pool_members db guild week =
     map pool_user_id
       (filter (\<lambda>r. pool_guild_id r = guild \<and> not_skipping week r) (one_on_one_pool db))"

definition mark_user_sat_out :: "database \<Rightarrow> int \<Rightarrow> int \<Rightarrow> string \<Rightarrow> database" where
  "mark_user_sat_out db guild user timestamp =
     db\<lparr>one_on_one_pool :=
          map (\<lambda>r. if pool_guild_id r = guild \<and> pool_user_id r = user
                   then r\<lparr>sat_out_at := Some timestamp\<rparr> else r) (one_on_one_pool db)\<rparr>"

definition sat_out_since :: "string \<Rightarrow> pool_row \<Rightarrow> bool" where
  "sat_out_since since r =
     (case sat_out_at r of None \<Rightarrow> False | Some s \<Rightarrow> since \<le> s)"

definition get_users_who_sat_out_recently :: "database \<Rightarrow> int \<Rightarrow> string \<Rightarrow> int list" where
  "get_users_who_sat_out_recently db guild since =
     map pool_user_id
       (filter (\<lambda>r. pool_guild_id r = guild \<and> sat_out_since since r) (one_on_one_pool db))"

section \<open>Match management (db/actions.py)\<close>

text \<open>
  The match id is an autoincrement key: one more than the largest id in the table
  (rows of this table are never deleted).
\<close>

definition next_match_id :: "database \<Rightarrow> int" where
  "next_match_id db = fold max (map match_id (one_on_one_matches db)) 0 + 1"

definition create_one_on_one_match ::
  "database \<Rightarrow> string \<Rightarrow> int \<Rightarrow> string \<Rightarrow> int \<Rightarrow> int \<Rightarrow> int option \<Rightarrow> database \<times> int" where
  "create_one_on_one_match db now guild week u1 u2 thread =
     (let new_id = next_match_id db in
      (db\<lparr>one_on_one_matches := one_on_one_matches db @
            [\<lparr>match_id = new_id, match_guild_id = guild, week_start = week,
              user1_id = u1, user2_id = u2, thread_id = thread,
              user1_status = Pending, user2_status = Pending, reminder_count = 0,
              created_at = now, completed_at = None\<rparr>]\<rparr>, new_id))"

definition get_match_by_thread :: "database \<Rightarrow> int \<Rightarrow> match_row option" where
  "get_match_by_thread db thread =
     find (\<lambda>m. thread_id m = Some thread) (one_on_one_matches db)"

definition get_match_by_id :: "database \<Rightarrow> int \<Rightarrow> match_row option" where
  "get_match_by_id db mid = find (\<lambda>m. match_id m = mid) (one_on_one_matches db)"

definition update_rows :: "int \<Rightarrow> (match_row \<Rightarrow> match_row) \<Rightarrow> database \<Rightarrow> database" where
  "update_rows mid f db =
     db\<lparr>one_on_one_matches :=
          map (\<lambda>m. if match_id m = mid then f m else m) (one_on_one_matches db)\<rparr>"

definition update_match_status :: "database \<Rightarrow> int \<Rightarrow> int \<Rightarrow> status \<Rightarrow> database" where
  "update_match_status db mid user st =
     (case get_match_by_id db mid of
        None \<Rightarrow> db
      | Some m \<Rightarrow>
          if user1_id m = user then update_rows mid (\<lambda>r. r\<lparr>user1_status := st\<rparr>) db
          else if user2_id m = user then update_rows mid (\<lambda>r. r\<lparr>user2_status := st\<rparr>) db
          else db)"

definition complete_match :: "database \<Rightarrow> int \<Rightarrow> string \<Rightarrow> database" where
  "complete_match db mid timestamp =
     update_rows mid (\<lambda>r. r\<lparr>completed_at := Some timestamp\<rparr>) db"

definition increment_match_reminder :: "database \<Rightarrow> int \<Rightarrow> database" where
  "increment_match_reminder db mid =
     (case get_match_by_id db mid of
        None \<Rightarrow> db
      | Some m \<Rightarrow> update_rows mid (\<lambda>r. r\<lparr>reminder_count := reminder_count m + 1\<rparr>) db)"

definition needs_reminder :: "int \<Rightarrow> string \<Rightarrow> int \<Rightarrow> match_row \<Rightarrow> bool" where
  "needs_reminder guild week max_reminders m =
     (match_guild_id m = guild \<and> week_start m = week \<and> completed_at m = None \<and>
      reminder_count m < max_reminders \<and>
      (user1_status m = Pending \<or> user2_status m = Pending))"

definition get_matches_needing_reminder ::
  "database \<Rightarrow> int \<Rightarrow> string \<Rightarrow> int \<Rightarrow> match_row list" where
  "get_matches_needing_reminder db guild week max_reminders =
     filter (needs_reminder guild week max_reminders) (one_on_one_matches db)"

definition matches_of_week :: "database \<Rightarrow> int \<Rightarrow> string \<Rightarrow> match_row list" where
  "matches_of_week db guild week =
     filter (\<lambda>m. match_guild_id m = guild \<and> week_start m = week) (one_on_one_matches db)"

definition get_users_matched_this_week :: "database \<Rightarrow> int \<Rightarrow> string \<Rightarrow> int set" where
  "get_users_matched_this_week db guild week =
     fold (\<lambda>row users. insert (user2_id row) (insert (user1_id row) users))
       (matches_of_week db guild week) {}"

definition get_user_partners_this_week :: "database \<Rightarrow> int \<Rightarrow> int \<Rightarrow> string \<Rightarrow> int set" where
  "get_user_partners_this_week db guild user week =
     fold (\<lambda>row partners.
             if user1_id row = user then insert (user2_id row) partners
             else insert (user1_id row) partners)
       (filter (\<lambda>m. user1_id m = user \<or> user2_id m = user) (matches_of_week db guild week))
       {}"

section \<open>The messaging platform and the process environment\<close>

text \<open>
  Everything the cog reads from outside the database is a field of the environment:
  the clock readings, the draws of the random generator, the bot's own identity and
  cache, and what each call of the messaging platform answers. A platform call either
  succeeds or raises: one of the exceptions of the Discord library (Forbidden and
  NotFound are subclasses of HTTPException), or any other exception, such as a
  connection error or a timeout below the library.
  \<^item> \<open>get_week_start\<close>, \<open>four_weeks_ago\<close>, \<open>utcnow\<close>: the Monday of the current week,
    the aware timestamp four weeks back and the naive timestamp of now, as ISO strings;
    \<open>current_timestamp\<close> is the database's default for \<open>created_at\<close>.
  \<^item> \<open>randbelow_choice\<close> is the draw behind \<^verbatim>\<open>random.choice\<close>, \<open>randbelow_shuffle i\<close> the
    draw of \<^verbatim>\<open>random.shuffle\<close> at index \<open>i\<close>; each is reduced modulo its bound.
  \<^item> \<open>create_thread ch k\<close> answers the \<open>k\<close>-th thread creation of a run in channel
    \<open>ch\<close>; \<open>post_instructions t\<close> answers the instructions and the two reactions posted
    in thread \<open>t\<close>; \<open>locate_thread t\<close> and \<open>thread_send t\<close> answer the lookup of a
    reminder's thread and the reminder itself; \<open>get_channel c\<close> tells whether a notice
    to channel \<open>c\<close> goes out; \<open>send_dm u\<close> answers the direct message to user \<open>u\<close>
    (fetching the user and sending).
\<close>

datatype platform_exc = Forbidden | NotFound | HTTPException | OtherException

text \<open>What \<^verbatim>\<open>except discord.Forbidden\<close> and \<^verbatim>\<open>except discord.HTTPException\<close> catch.\<close>

fun is_http_exception :: "platform_exc \<Rightarrow> bool" where
  "is_http_exception Forbidden = True"
| "is_http_exception NotFound = True"
| "is_http_exception HTTPException = True"
| "is_http_exception OtherException = False"

text \<open>A coroutine returns a value or lets an exception escape.\<close>

datatype 'a outcome = Returned 'a | Raised platform_exc

record text_channel =
  channel_id :: int
  channel_name :: string

record guild =
  guild_id :: int
  text_channels :: "text_channel list"

record env =
  get_week_start :: string
  four_weeks_ago :: string
  utcnow :: string
  current_timestamp :: string
  randbelow_choice :: nat
  randbelow_shuffle :: "nat \<Rightarrow> nat"
  bot_user_id :: int
  get_guild :: "int \<Rightarrow> guild option"
  get_channel :: "int \<Rightarrow> bool"
  create_thread :: "int \<Rightarrow> nat \<Rightarrow> platform_exc + int"
  post_instructions :: "int \<Rightarrow> platform_exc option"
  locate_thread :: "int \<Rightarrow> platform_exc option"
  thread_send :: "int \<Rightarrow> platform_exc option"
  send_dm :: "int \<Rightarrow> platform_exc option"

datatype emoji = WhiteCheckMark | CrossMark | OtherEmoji

record payload =
  payload_user_id :: int
  payload_channel_id :: int
  payload_guild_id :: int
  payload_emoji :: emoji

text \<open>The messages that reach the platform, in the order the cog sends them.\<close>

datatype notice =
    CompletionNotice int
  | DeclineNotice int int int
  | NoMatchDM int
  | Reminder int int "int list"
  | Instructions int int int

definition get_one_on_ones_channel :: "guild \<Rightarrow> text_channel option" where
  "get_one_on_ones_channel g = find (\<lambda>c. channel_name c = ''1-1s'') (text_channels g)"

section \<open>The random module\<close>

text \<open>
  \<^verbatim>\<open>random.choice\<close> raises IndexError on an empty sequence and otherwise indexes it with
  a draw below its length; \<^verbatim>\<open>list.remove\<close> raises ValueError when the element is absent;
  \<^verbatim>\<open>random.shuffle\<close> walks the indices downwards and swaps each with a draw at or below
  it. A raised exception that nothing catches is the value \<open>None\<close>.
\<close>

definition choice :: "nat \<Rightarrow> 'a list \<Rightarrow> 'a option" where
  "choice r xs = (if xs = [] then None else Some (xs ! (r mod length xs)))"

fun list_remove :: "'a \<Rightarrow> 'a list \<Rightarrow> 'a list option" where
  "list_remove x [] = None"
| "list_remove x (y # ys) =
     (if x = y then Some ys else map_option (Cons y) (list_remove x ys))"

fun shuffle_from :: "(nat \<Rightarrow> nat) \<Rightarrow> nat \<Rightarrow> 'a list \<Rightarrow> 'a list" where
  "shuffle_from rnd 0 xs = xs"
| "shuffle_from rnd (Suc i) xs =
     (let j = rnd (Suc i) mod (Suc i + 1)
      in shuffle_from rnd i (xs[Suc i := xs ! j, j := xs ! Suc i]))"

definition shuffle :: "(nat \<Rightarrow> nat) \<Rightarrow> 'a list \<Rightarrow> 'a list" where
  "shuffle rnd xs = shuffle_from rnd (length xs - 1) xs"

section \<open>Weekly matching (cogs/one_on_ones.py)\<close>

text \<open>The comprehension that pairs neighbours; it raises IndexError on an odd length.\<close>

fun pairs_of :: "'a list \<Rightarrow> ('a \<times> 'a) list option" where
  "pairs_of [] = Some []"
| "pairs_of [x] = None"
| "pairs_of (x # y # zs) = map_option (Cons (x, y)) (pairs_of zs)"

definition eligible :: "env \<Rightarrow> int \<Rightarrow> database \<Rightarrow> int list" where
  "eligible env gid db =
     filter (\<lambda>u. u \<notin> get_users_matched_this_week db gid (get_week_start env))
       (get_available_pool_members db gid (get_week_start env))"

definition sit_out_candidates :: "env \<Rightarrow> int \<Rightarrow> database \<Rightarrow> int list \<Rightarrow> int list" where
  "sit_out_candidates env gid db available =
     filter (\<lambda>u. u \<notin> set (get_users_who_sat_out_recently db gid (four_weeks_ago env)))
       available"

definition pick_sit_out :: "env \<Rightarrow> int \<Rightarrow> database \<Rightarrow> int list \<Rightarrow> int option" where
  "pick_sit_out env gid db available =
     (let candidates = sit_out_candidates env gid db available
      in if candidates \<noteq> [] then choice (randbelow_choice env) candidates
         else choice (randbelow_choice env) available)"

text \<open>
  The first half of \<^verbatim>\<open>_run_matching_for_guild\<close>, up to the list of pairs: either the
  early return, or the database after the sit-out was marked, the sit-out and the pairs.
\<close>

datatype plan = TooFew | Plan database "int option" "(int \<times> int) list"

definition plan_matching :: "env \<Rightarrow> int \<Rightarrow> database \<Rightarrow> plan option" where
  "plan_matching env gid db =
     (if length (get_available_pool_members db gid (get_week_start env)) < 2 then Some TooFew
      else let available = eligible env gid db in
        if length available < 2 then Some TooFew
        else if length available mod 2 = 1 then
          (case pick_sit_out env gid db available of
             None \<Rightarrow> None
           | Some sit_out_user \<Rightarrow>
               (case list_remove sit_out_user available of
                  None \<Rightarrow> None
                | Some rest \<Rightarrow>
                    map_option
                      (Plan (mark_user_sat_out db gid sit_out_user (utcnow env))
                         (Some sit_out_user))
                      (pairs_of (shuffle (randbelow_shuffle env) rest))))
        else map_option (Plan db None) (pairs_of (shuffle (randbelow_shuffle env) available)))"

text \<open>
  The loop over the pairs. The \<open>k\<close>-th pair asks the platform for a thread, posts the
  instructions and the two reactions, and only then stores the match. The loop catches
  Forbidden and HTTPException and goes on to the next pair; any other exception leaves
  the loop and the function, with the rows stored so far.
\<close>

fun create_matches ::
  "env \<Rightarrow> int \<Rightarrow> int \<Rightarrow> nat \<Rightarrow> (int \<times> int) list \<Rightarrow> database \<Rightarrow> int
     \<Rightarrow> database \<times> int outcome" where
  "create_matches env gid ch k [] db matches_created = (db, Returned matches_created)"
| "create_matches env gid ch k ((user1, user2) # pairs) db matches_created =
     (case create_thread env ch k of
        Inl e \<Rightarrow>
          if is_http_exception e
          then create_matches env gid ch (Suc k) pairs db matches_created
          else (db, Raised e)
      | Inr thread \<Rightarrow>
          (case post_instructions env thread of
             Some e \<Rightarrow>
               if is_http_exception e
               then create_matches env gid ch (Suc k) pairs db matches_created
               else (db, Raised e)
           | None \<Rightarrow>
               create_matches env gid ch (Suc k) pairs
                 (fst (create_one_on_one_match db (current_timestamp env) gid
                         (get_week_start env) user1 user2 (Some thread)))
                 (matches_created + 1)))"

text \<open>
  \<open>None\<close> is an exception of the first half (IndexError, ValueError); an exception that
  leaves the loop is reported with the database it leaves behind.
\<close>

definition run_matching_for_guild ::
  "env \<Rightarrow> guild \<Rightarrow> database \<Rightarrow> (database \<times> int outcome) option" where
  "run_matching_for_guild env g db =
     (case plan_matching env (guild_id g) db of
        None \<Rightarrow> None
      | Some TooFew \<Rightarrow> Some (db, Returned 0)
      | Some (Plan db1 sit_out_user pairs) \<Rightarrow>
          (case get_one_on_ones_channel g of
             None \<Rightarrow> Some (db1, Returned 0)
           | Some channel \<Rightarrow>
               Some (create_matches env (guild_id g) (channel_id channel) 0 pairs db1 0)))"

section \<open>Reminders (cogs/one_on_ones.py)\<close>

definition pending_users :: "match_row \<Rightarrow> int list" where
  "pending_users m =
     (if user1_status m = Pending then [user1_id m] else []) @
     (if user2_status m = Pending then [user2_id m] else [])"

text \<open>Every exception raised while locating the thread or posting is caught and logged.\<close>

definition send_reminder :: "env \<Rightarrow> match_row \<Rightarrow> database \<Rightarrow> database \<times> notice list" where
  "send_reminder env m db =
     (case thread_id m of
        None \<Rightarrow> (db, [])
      | Some t \<Rightarrow>
          if t = 0 then (db, [])
          else (case locate_thread env t of
                  Some e \<Rightarrow> (db, [])
                | None \<Rightarrow>
                    if pending_users m \<noteq> [] then
                      (case thread_send env t of
                         Some e \<Rightarrow> (db, [])
                       | None \<Rightarrow> (increment_match_reminder db (match_id m),
                                   [Reminder (match_id m) t (pending_users m)]))
                    else (db, [])))"

fun send_each :: "env \<Rightarrow> match_row list \<Rightarrow> database \<Rightarrow> database \<times> notice list" where
  "send_each env [] db = (db, [])"
| "send_each env (m # ms) db =
     (let (db1, sent) = send_reminder env m db;
          (db2, rest) = send_each env ms db1
      in (db2, sent @ rest))"

text \<open>
  The body of the per-guild loop of \<^verbatim>\<open>send_reminders\<close>, with its cap of 2. The
  weekday test of the periodic loop and its walk over the guilds stand outside this scan.
\<close>

definition send_reminders_guild :: "env \<Rightarrow> int \<Rightarrow> database \<Rightarrow> database \<times> notice list" where
  "send_reminders_guild env gid db =
     send_each env (get_matches_needing_reminder db gid (get_week_start env) 2) db"

section \<open>Reactions and rematch (cogs/one_on_ones.py)\<close>

definition rematch_candidates :: "env \<Rightarrow> int \<Rightarrow> int \<Rightarrow> database \<Rightarrow> int list" where
  "rematch_candidates env gid user db =
     filter (\<lambda>u. u \<noteq> user \<and>
                 u \<notin> get_user_partners_this_week db gid user (get_week_start env) \<and>
                 u \<notin> get_users_matched_this_week db gid (get_week_start env))
       (get_available_pool_members db gid (get_week_start env))"

text \<open>
  In the rematch every exception of the thread creation and of the direct message is
  caught and logged: a refused direct message sends nothing, a refused thread stores
  nothing. The thread of a rematch is the platform's answer number 0 for that channel.
\<close>

definition attempt_rematch ::
  "env \<Rightarrow> int \<Rightarrow> int \<Rightarrow> database \<Rightarrow> (database \<times> notice list) option" where
  "attempt_rematch env gid user db =
     (let candidates = rematch_candidates env gid user db in
      if candidates = [] then
        (case send_dm env user of
           None \<Rightarrow> Some (db, [NoMatchDM user])
         | Some e \<Rightarrow> Some (db, []))
      else (case choice (randbelow_choice env) candidates of
              None \<Rightarrow> None
            | Some new_partner \<Rightarrow>
                (case get_guild env gid of
                   None \<Rightarrow> Some (db, [])
                 | Some g \<Rightarrow>
                     (case get_one_on_ones_channel g of
                        None \<Rightarrow> Some (db, [])
                      | Some channel \<Rightarrow>
                          (case create_thread env (channel_id channel) 0 of
                             Inl e \<Rightarrow> Some (db, [])
                           | Inr thread \<Rightarrow>
                               (case post_instructions env thread of
                                  Some e \<Rightarrow> Some (db, [])
                                | None \<Rightarrow>
                                    Some (fst (create_one_on_one_match db
                                                 (current_timestamp env) gid
                                                 (get_week_start env) user new_partner
                                                 (Some thread)),
                                          [Instructions thread user new_partner])))))))"

text \<open>
  \<^verbatim>\<open>_handle_confirm\<close> reads the row back after the update; subscripting a missing row
  would raise, which nothing in the handler catches.
\<close>

definition handle_confirm ::
  "env \<Rightarrow> payload \<Rightarrow> match_row \<Rightarrow> database \<Rightarrow> (database \<times> notice list) option" where
  "handle_confirm env p m db =
     (let db1 = update_match_status db (match_id m) (payload_user_id p) Confirmed in
      case get_match_by_id db1 (match_id m) of
        None \<Rightarrow> None
      | Some updated_match \<Rightarrow>
          if user1_status updated_match = Confirmed \<and> user2_status updated_match = Confirmed
          then Some (complete_match db1 (match_id m) (utcnow env),
                     if get_channel env (payload_channel_id p)
                     then [CompletionNotice (payload_channel_id p)] else [])
          else Some (db1, []))"

definition partner_of :: "payload \<Rightarrow> match_row \<Rightarrow> int" where
  "partner_of p m = (if payload_user_id p = user1_id m then user2_id m else user1_id m)"

definition handle_decline ::
  "env \<Rightarrow> payload \<Rightarrow> match_row \<Rightarrow> database \<Rightarrow> (database \<times> notice list) option" where
  "handle_decline env p m db =
     (let db1 = update_match_status db (match_id m) (payload_user_id p) Declined;
          db2 = complete_match db1 (match_id m) (utcnow env);
          partner_id = partner_of p m;
          sent = (if get_channel env (payload_channel_id p)
                  then [DeclineNotice (payload_channel_id p) (payload_user_id p) partner_id]
                  else [])
      in map_option (\<lambda>(db3, more). (db3, sent @ more))
           (attempt_rematch env (payload_guild_id p) partner_id db2))"

datatype dispatch = Ignored | ToConfirm match_row | ToDecline match_row

definition dispatch_reaction :: "env \<Rightarrow> payload \<Rightarrow> database \<Rightarrow> dispatch" where
  "dispatch_reaction env p db =
     (if payload_user_id p = bot_user_id env then Ignored
      else if payload_emoji p \<noteq> WhiteCheckMark \<and> payload_emoji p \<noteq> CrossMark then Ignored
      else (case get_match_by_thread db (payload_channel_id p) of
              None \<Rightarrow> Ignored
            | Some m \<Rightarrow>
                if payload_user_id p \<noteq> user1_id m \<and> payload_user_id p \<noteq> user2_id m
                then Ignored
                else if payload_emoji p = WhiteCheckMark then ToConfirm m
                else if payload_emoji p = CrossMark then ToDecline m
                else Ignored))"

definition on_raw_reaction_add ::
  "env \<Rightarrow> payload \<Rightarrow> database \<Rightarrow> (database \<times> notice list) option" where
  "on_raw_reaction_add env p db =
     (case dispatch_reaction env p db of
        Ignored \<Rightarrow> Some (db, [])
      | ToConfirm m \<Rightarrow> handle_confirm env p m db
      | ToDecline m \<Rightarrow> handle_decline env p m db)"

section \<open>The skip command (cogs/one_on_ones.py)\<close>

text \<open>
  \<^verbatim>\<open>datetime.isoformat\<close> of an aware UTC timestamp: the date, a T, the time of day
  and the offset. The skip command is the only writer of \<open>skip_until\<close>: for a member of
  the pool it stores the timestamp of now plus the weeks asked for, whose date and time
  of day are \<open>date\<close> and \<open>clock\<close>.
\<close>

definition isoformat_utc :: "string \<Rightarrow> string \<Rightarrow> string" where
  "isoformat_utc date clock = date @ ''T'' @ clock @ ''+00:00''"

definition skip :: "string \<Rightarrow> string \<Rightarrow> database \<Rightarrow> int \<Rightarrow> int \<Rightarrow> database" where
  "skip date clock db guild user =
     (case get_one_on_one_pool_status db guild user of
        None \<Rightarrow> db
      | Some status \<Rightarrow> set_one_on_one_skip db guild user (Some (isoformat_utc date clock)))"

section \<open>Vocabulary of the properties\<close>

text \<open>The users that appear in a list of pairs, in order.\<close>

definition pair_members :: "('a \<times> 'a) list \<Rightarrow> 'a list" where
  "pair_members ps = concat (map (\<lambda>(a, b). [a, b]) ps)"

text \<open>The primary key of the match table is the id.\<close>

definition match_key_ok :: "database \<Rightarrow> bool" where
  "match_key_ok db = distinct (map match_id (one_on_one_matches db))"

text \<open>
  The \<open>k\<close>-th pair of a run gets its thread and its instructions; or its attempt raises
  an exception that the loop does not catch.
\<close>

definition attempt_escapes :: "env \<Rightarrow> int \<Rightarrow> nat \<Rightarrow> bool" where
  "attempt_escapes env ch k =
     (case create_thread env ch k of
        Inl e \<Rightarrow> \<not> is_http_exception e
      | Inr thread \<Rightarrow>
          (case post_instructions env thread of
             None \<Rightarrow> False
           | Some e \<Rightarrow> \<not> is_http_exception e))"


definition attempt_ok :: "env \<Rightarrow> int \<Rightarrow> nat \<Rightarrow> bool" where
  "attempt_ok env ch k =
     (case create_thread env ch k of
        Inl e \<Rightarrow> False
      | Inr thread \<Rightarrow> post_instructions env thread = None)"

text \<open>A reminder for this match reaches its thread.\<close>

definition reminder_posted :: "env \<Rightarrow> match_row \<Rightarrow> bool" where
  "reminder_posted env m =
     (case thread_id m of
        None \<Rightarrow> False
      | Some t \<Rightarrow> t \<noteq> 0 \<and> locate_thread env t = None \<and> pending_users m \<noteq> [] \<and>
                  thread_send env t = None)"

text \<open>The pairs of a run, from the \<open>k\<close>-th on, that get their thread and instructions.\<close>

fun successful_pairs :: "env \<Rightarrow> int \<Rightarrow> nat \<Rightarrow> (int \<times> int) list \<Rightarrow> (int \<times> int) list" where
  "successful_pairs env ch k [] = []"
| "successful_pairs env ch k (p # ps) =
     (if attempt_ok env ch k then p # successful_pairs env ch (Suc k) ps
      else successful_pairs env ch (Suc k) ps)"

section \<open>A community of five\<close>

text \<open>
  One guild with a channel named 1-1s, a second guild description without it, and a
  platform that refuses the first thread of a run and grants the later ones.
\<close>

definition demo_guild :: guild where
  "demo_guild =
     \<lparr>guild_id = 1,
      text_channels = [\<lparr>channel_id = 40, channel_name = ''general''\<rparr>,
                       \<lparr>channel_id = 41, channel_name = ''1-1s''\<rparr>]\<rparr>"

definition bare_guild :: guild where
  "bare_guild =
     \<lparr>guild_id = 1, text_channels = [\<lparr>channel_id = 40, channel_name = ''general''\<rparr>]\<rparr>"

definition demo_env :: env where
  "demo_env =
     \<lparr>get_week_start = ''2024-01-08'',
      four_weeks_ago = ''2023-12-17T10:00:00.000000+00:00'',
      utcnow = ''2024-01-14T10:00:00.000000'',
      current_timestamp = ''2024-01-14 10:00:00'',
      randbelow_choice = 7,
      randbelow_shuffle = (\<lambda>i. i + 2),
      bot_user_id = 999,
      get_guild = (\<lambda>g. if g = 1 then Some demo_guild else None),
      get_channel = (\<lambda>c. True),
      create_thread = (\<lambda>ch k. if k = 0 then Inl Forbidden else Inr (500 + int k)),
      post_instructions = (\<lambda>t. None),
      locate_thread = (\<lambda>t. None),
      thread_send = (\<lambda>t. None),
      send_dm = (\<lambda>u. None)\<rparr>"

definition member :: "int \<Rightarrow> int \<Rightarrow> string option \<Rightarrow> string option \<Rightarrow> pool_row" where
  "member g u until sat =
     \<lparr>pool_guild_id = g, pool_user_id = u, joined_at = ''2023-11-01 08:00:00'',
      skip_until = until, sat_out_at = sat\<rparr>"

text \<open>
  Members 11 to 15 are available in the week of 2024-01-08 (12 finished a skip, 13 sat
  out a week ago); 16 skips until February; the last row belongs to another guild.
\<close>

definition five_db :: database where
  "five_db =
     \<lparr>one_on_one_pool =
        [member 1 11 None None,
         member 1 12 (Some ''2024-01-01T09:00:00.000000+00:00'') None,
         member 1 13 None (Some ''2024-01-07T10:00:00.000000''),
         member 1 14 None None,
         member 1 15 None (Some ''2023-11-05T10:00:00.000000''),
         member 1 16 (Some ''2024-02-05T09:00:00.000000+00:00'') None,
         member 2 11 None None],
      one_on_one_matches = []\<rparr>"

text \<open>Three available members who all sat out within the last four weeks.\<close>

definition recent_db :: database where
  "recent_db =
     \<lparr>one_on_one_pool =
        [member 1 21 None (Some ''2024-01-07T10:00:00.000000''),
         member 1 22 None (Some ''2023-12-31T10:00:00.000000''),
         member 1 23 None (Some ''2023-12-24T10:00:00.000000'')],
      one_on_one_matches = []\<rparr>"

text \<open>A member whose skip ends on the Monday of the week, at midnight.\<close>

definition skip_db :: database where
  "skip_db =
     \<lparr>one_on_one_pool = [member 1 31 (Some ''2024-01-08T00:00:00.000000+00:00'') None],
      one_on_one_matches = []\<rparr>"

section \<open>A week of matches\<close>

definition pairing ::
  "int \<Rightarrow> int \<Rightarrow> int \<Rightarrow> int \<Rightarrow> status \<Rightarrow> status \<Rightarrow> int \<Rightarrow> string option \<Rightarrow> match_row" where
  "pairing mid u1 u2 thread s1 s2 reminders done =
     \<lparr>match_id = mid, match_guild_id = 1, week_start = ''2024-01-08'',
      user1_id = u1, user2_id = u2, thread_id = Some thread,
      user1_status = s1, user2_status = s2, reminder_count = reminders,
      created_at = ''2024-01-07 10:00:00'', completed_at = done\<rparr>"

text \<open>
  The pool of five with four matches of the week: one half confirmed and reminded once,
  one completed by two confirmations, one at the reminder cap, one completed by a decline.
  Member 15 is in no match.
\<close>

definition week_db :: database where
  "week_db =
     \<lparr>one_on_one_pool = one_on_one_pool five_db,
      one_on_one_matches =
        [pairing 1 11 12 501 Pending Confirmed 1 None,
         pairing 2 13 14 502 Confirmed Confirmed 0 (Some ''2024-01-09T12:00:00.000000''),
         pairing 3 17 18 503 Pending Pending 2 None,
         pairing 4 19 20 504 Pending Declined 0 (Some ''2024-01-08T09:00:00.000000'')]\<rparr>"

definition reaction :: "int \<Rightarrow> int \<Rightarrow> emoji \<Rightarrow> payload" where
  "reaction u ch e =
     \<lparr>payload_user_id = u, payload_channel_id = ch, payload_guild_id = 1,
      payload_emoji = e\<rparr>"


definition open_env :: env where
  "open_env = demo_env\<lparr>create_thread := (\<lambda>ch k. Inr (600 + int k))\<rparr>"

text \<open>
  A platform whose first thread creation of a run dies of a connection error, and one
  that refuses every direct message.
\<close>

definition broken_env :: env where
  "broken_env =
     demo_env\<lparr>create_thread :=
                (\<lambda>ch k. if k = 0 then Inl OtherException else Inr (500 + int k))\<rparr>"

definition mute_env :: env where
  "mute_env = demo_env\<lparr>send_dm := (\<lambda>u. Some Forbidden)\<rparr>"



definition reopened :: database where
  "reopened =
     week_db\<lparr>one_on_one_matches :=
       [pairing 1 11 12 501 Pending Confirmed 1 None,
        pairing 2 13 14 502 Declined Confirmed 0 (Some ''2024-01-14T10:00:00.000000''),
        pairing 3 17 18 503 Pending Pending 2 None,
        pairing 4 19 20 504 Pending Declined 0 (Some ''2024-01-08T09:00:00.000000'')]\<rparr>"

section \<open>Lists, lookups and the random module\<close>

lemma find_Some_D: "find P xs = Some r \<Longrightarrow> r \<in> set xs \<and> P r"
  by (induction xs) (auto split: if_splits)

lemma find_map_upd:
  assumes "\<And>r. P (f r) = P r"
  shows "find P (map (\<lambda>r. if P r then f r else r) rows) = map_option f (find P rows)"
  using assms by (induction rows) auto

lemma key_unique:
  "distinct (map f xs) \<Longrightarrow> r \<in> set xs \<Longrightarrow> r' \<in> set xs \<Longrightarrow> f r = f r' \<Longrightarrow> r = r'"
  by (meson distinct_map inj_onD)

lemma shuffle_from_mset:
  "i < length xs \<or> i = 0 \<Longrightarrow> mset (shuffle_from rnd i xs) = mset xs"
proof (induction i arbitrary: xs)
  case 0
  then show ?case by simp
next
  case (Suc i)
  then have len: "Suc i < length xs" by simp
  let ?j = "rnd (Suc i) mod (Suc i + 1)"
  have "?j < Suc i + 1" by (rule mod_less_divisor) simp
  then have j: "?j < length xs" using len by linarith
  let ?ys = "xs[Suc i := xs ! ?j, ?j := xs ! Suc i]"
  have "mset ?ys = mset xs" using mset_swap[OF j len] by simp
  moreover have "i < length ?ys \<or> i = 0" using len by simp
  ultimately show ?case using Suc.IH[of ?ys] by (simp add: Let_def)
qed

lemma shuffle_mset: "mset (shuffle rnd xs) = mset xs"
  unfolding shuffle_def by (rule shuffle_from_mset) (cases xs; simp)

lemma shuffle_length: "length (shuffle rnd xs) = length xs"
  using shuffle_mset[of rnd xs] by (metis size_mset)

lemma pairs_of_even:
  "even (length xs) \<Longrightarrow>
     \<exists>ps. pairs_of xs = Some ps \<and> length ps = length xs div 2 \<and> pair_members ps = xs"
proof (induction xs rule: pairs_of.induct)
  case 1
  then show ?case by (simp add: pair_members_def)
next
  case (2 x)
  then show ?case by simp
next
  case (3 x y zs)
  then obtain ps where
    "pairs_of zs = Some ps" "length ps = length zs div 2" "pair_members ps = zs"
    by auto
  then show ?case by (simp add: pair_members_def)
qed

lemma list_remove_mem: "x \<in> set xs \<Longrightarrow> list_remove x xs = Some (remove1 x xs)"
  by (induction xs) auto

lemma choice_mem: "xs \<noteq> [] \<Longrightarrow> \<exists>x. choice r xs = Some x \<and> x \<in> set xs"
  by (simp add: choice_def)

section \<open>The pool\<close>

lemma available_iff:
  "u \<in> set (get_available_pool_members db g w) \<longleftrightarrow>
     (\<exists>r \<in> set (one_on_one_pool db).
        pool_guild_id r = g \<and> pool_user_id r = u \<and> not_skipping w r)"
  by (auto simp: get_available_pool_members_def)

lemma status_row:
  assumes "pool_key_ok db" "r \<in> set (one_on_one_pool db)"
    "pool_guild_id r = g" "pool_user_id r = u"
  shows "get_one_on_one_pool_status db g u = Some r"
proof -
  obtain r' where f: "get_one_on_one_pool_status db g u = Some r'"
    using assms(2-4) unfolding get_one_on_one_pool_status_def
    by (cases "find (\<lambda>r. pool_guild_id r = g \<and> pool_user_id r = u) (one_on_one_pool db)")
       (auto simp: find_None_iff)
  then have "r' \<in> set (one_on_one_pool db)" "pool_guild_id r' = g \<and> pool_user_id r' = u"
    unfolding get_one_on_one_pool_status_def by (auto dest: find_Some_D)
  then have "r' = r"
    using assms key_unique[of "\<lambda>r. (pool_guild_id r, pool_user_id r)" "one_on_one_pool db" r' r]
    unfolding pool_key_ok_def by simp
  then show ?thesis using f by simp
qed

lemma distinct_available:
  "distinct (map (\<lambda>r. (pool_guild_id r, pool_user_id r)) rows) \<Longrightarrow>
   distinct (map pool_user_id (filter (\<lambda>r. pool_guild_id r = g \<and> P r) rows))"
  by (induction rows) (auto simp: image_iff)

lemma eligible_distinct: "pool_key_ok db \<Longrightarrow> distinct (eligible env gid db)"
  unfolding eligible_def get_available_pool_members_def pool_key_ok_def
  by (intro distinct_filter distinct_available)

lemma eligible_subset:
  "set (eligible env gid db) \<subseteq> set (get_available_pool_members db gid (get_week_start env))"
  by (auto simp: eligible_def)

lemma eligible_length:
  "length (eligible env gid db)
     \<le> length (get_available_pool_members db gid (get_week_start env))"
  by (simp add: eligible_def)

lemma status_after_mark:
  "get_one_on_one_pool_status (mark_user_sat_out db g u ts) g u =
     map_option (\<lambda>r. r\<lparr>sat_out_at := Some ts\<rparr>) (get_one_on_one_pool_status db g u)"
  unfolding get_one_on_one_pool_status_def mark_user_sat_out_def
  by (simp add: find_map_upd[where P="\<lambda>r. pool_guild_id r = g \<and> pool_user_id r = u"])

lemma available_has_row:
  "u \<in> set (get_available_pool_members db g w) \<Longrightarrow>
     \<exists>r. get_one_on_one_pool_status db g u = Some r"
  unfolding get_available_pool_members_def get_one_on_one_pool_status_def
  by (cases "find (\<lambda>r. pool_guild_id r = g \<and> pool_user_id r = u) (one_on_one_pool db)")
     (auto simp: find_None_iff)

section \<open>The plan of a weekly run\<close>

lemma pick_sit_out_mem:
  "available \<noteq> [] \<Longrightarrow>
     \<exists>s. pick_sit_out env gid db available = Some s \<and> s \<in> set available \<and>
         (sit_out_candidates env gid db available \<noteq> [] \<longrightarrow>
            s \<in> set (sit_out_candidates env gid db available))"
  unfolding pick_sit_out_def Let_def
  using choice_mem[of "sit_out_candidates env gid db available" "randbelow_choice env"]
        choice_mem[of available "randbelow_choice env"]
  by (auto simp: sit_out_candidates_def)

lemma plan_even:
  assumes "2 \<le> length (eligible env gid db)" "even (length (eligible env gid db))"
  shows "\<exists>ps. plan_matching env gid db = Some (Plan db None ps) \<and>
           length ps = length (eligible env gid db) div 2 \<and>
           mset (pair_members ps) = mset (eligible env gid db)"
proof -
  let ?av = "eligible env gid db"
  let ?sh = "shuffle (randbelow_shuffle env) ?av"
  have "even (length ?sh)" using assms(2) by (simp add: shuffle_length)
  from pairs_of_even[OF this] obtain ps where
    ps: "pairs_of ?sh = Some ps" "length ps = length ?sh div 2" "pair_members ps = ?sh"
    by blast
  have "plan_matching env gid db = Some (Plan db None ps)"
    using assms eligible_length[of env gid db] ps(1)
    by (simp add: plan_matching_def Let_def)
  then show ?thesis using ps by (auto simp: shuffle_length shuffle_mset)
qed

lemma plan_odd:
  assumes "2 \<le> length (eligible env gid db)" "odd (length (eligible env gid db))"
  shows "\<exists>s ps. plan_matching env gid db =
              Some (Plan (mark_user_sat_out db gid s (utcnow env)) (Some s) ps) \<and>
           pick_sit_out env gid db (eligible env gid db) = Some s \<and>
           s \<in> set (eligible env gid db) \<and>
           length ps = length (eligible env gid db) div 2 \<and>
           mset (pair_members ps) = mset (remove1 s (eligible env gid db))"
proof -
  let ?av = "eligible env gid db"
  have ne: "?av \<noteq> []" using assms(1) by auto
  from pick_sit_out_mem[OF ne] obtain s where
    s: "pick_sit_out env gid db ?av = Some s" "s \<in> set ?av" by blast
  let ?rest = "remove1 s ?av"
  let ?sh = "shuffle (randbelow_shuffle env) ?rest"
  have rm: "list_remove s ?av = Some ?rest" using s(2) by (rule list_remove_mem)
  have lr: "length ?rest = length ?av - 1" using s(2) by (simp add: length_remove1)
  have "even (length ?sh)" using assms lr by (simp add: shuffle_length)
  from pairs_of_even[OF this] obtain ps where
    ps: "pairs_of ?sh = Some ps" "length ps = length ?sh div 2" "pair_members ps = ?sh"
    by blast
  have odd1: "length ?av mod 2 = 1" using assms(2) by (simp add: odd_iff_mod_2_eq_one)
  have "plan_matching env gid db =
          Some (Plan (mark_user_sat_out db gid s (utcnow env)) (Some s) ps)"
    using assms(1) eligible_length[of env gid db] ps(1) s(1) rm odd1
    by (simp add: plan_matching_def Let_def)
  moreover have "length ps = length ?av div 2"
    using ps(2) lr assms by (simp add: shuffle_length) presburger
  ultimately show ?thesis using ps s by (auto simp: shuffle_mset)
qed

section \<open>The weekly run\<close>

lemma create_matches_pool:
  "one_on_one_pool (fst (create_matches env gid ch k ps db n)) = one_on_one_pool db"
  by (induction env gid ch k ps db n rule: create_matches.induct)
     (auto simp: create_one_on_one_match_def Let_def split: sum.splits option.splits)

lemma mark_matches: "one_on_one_matches (mark_user_sat_out db g u ts) = one_on_one_matches db"
  by (simp add: mark_user_sat_out_def)

lemma run_of_plan:
  "plan_matching env (guild_id g) db = Some (Plan db1 sit ps) \<Longrightarrow>
     \<exists>db' created. run_matching_for_guild env g db = Some (db', created) \<and>
        one_on_one_pool db' = one_on_one_pool db1"
proof (cases "get_one_on_ones_channel g")
  case None
  then show ?thesis if "plan_matching env (guild_id g) db = Some (Plan db1 sit ps)"
    using that by (simp add: run_matching_for_guild_def)
next
  case (Some c)
  obtain db' created where
    cm: "create_matches env (guild_id g) (channel_id c) 0 ps db1 0 = (db', created)"
    by (cases "create_matches env (guild_id g) (channel_id c) 0 ps db1 0")
  then have "one_on_one_pool db' = one_on_one_pool db1"
    using create_matches_pool[of env "guild_id g" "channel_id c" 0 ps db1 0] by simp
  then show ?thesis if "plan_matching env (guild_id g) db = Some (Plan db1 sit ps)"
    using that Some cm by (simp add: run_matching_for_guild_def)
qed

lemma status_pool_cong:
  "one_on_one_pool db' = one_on_one_pool db \<Longrightarrow>
     get_one_on_one_pool_status db' g u = get_one_on_one_pool_status db g u"
  by (simp add: get_one_on_one_pool_status_def)

text \<open>
  Claim C3. With the pool's primary key in force and at least two eligible members
  (available, not yet matched this week), the run raises nothing while it pairs the
  members, and it pairs them into exactly half their number (rounded down) of pairs; no
  user is in two pairs; the pairs together with the sit-out are exactly the eligible
  members; an even count has no sit-out, an odd count has one, who is eligible, is in no
  pair, and whose pool row carries the time of the run as \<open>sat_out_at\<close> when the run
  ends, with a count or with an exception of the platform.
\<close>

theorem weekly_pairing_partition:
  assumes "pool_key_ok db" and "2 \<le> length (eligible env (guild_id g) db)"
  shows "\<exists>db1 sit ps db' created.
     plan_matching env (guild_id g) db = Some (Plan db1 sit ps) \<and>
     run_matching_for_guild env g db = Some (db', created) \<and>
     length ps = length (eligible env (guild_id g) db) div 2 \<and>
     distinct (pair_members ps) \<and>
     mset (pair_members ps) + mset (case sit of None \<Rightarrow> [] | Some s \<Rightarrow> [s])
       = mset (eligible env (guild_id g) db) \<and>
     (even (length (eligible env (guild_id g) db)) \<longrightarrow> sit = None) \<and>
     (odd (length (eligible env (guild_id g) db)) \<longrightarrow>
        (\<exists>s r. sit = Some s \<and> s \<in> set (eligible env (guild_id g) db) \<and>
               s \<notin> set (pair_members ps) \<and>
               get_one_on_one_pool_status db' (guild_id g) s = Some r \<and>
               sat_out_at r = Some (utcnow env)))"
proof (cases "even (length (eligible env (guild_id g) db))")
  case True
  let ?av = "eligible env (guild_id g) db"
  from plan_even[OF assms(2) True] obtain ps where
    ps: "plan_matching env (guild_id g) db = Some (Plan db None ps)"
        "length ps = length ?av div 2" "mset (pair_members ps) = mset ?av" by blast
  from run_of_plan[OF ps(1)] obtain db' created where
    run: "run_matching_for_guild env g db = Some (db', created)" by blast
  have "distinct (pair_members ps)"
    using ps(3) eligible_distinct[OF assms(1), of env "guild_id g"]
    by (metis mset_eq_imp_distinct_iff)
  with ps run True show ?thesis by auto
next
  case False
  let ?av = "eligible env (guild_id g) db"
  from plan_odd[OF assms(2) False] obtain s ps where
    ps: "plan_matching env (guild_id g) db =
           Some (Plan (mark_user_sat_out db (guild_id g) s (utcnow env)) (Some s) ps)"
        "s \<in> set ?av" "length ps = length ?av div 2"
        "mset (pair_members ps) = mset (remove1 s ?av)" by blast
  from run_of_plan[OF ps(1)] obtain db' created where
    run: "run_matching_for_guild env g db = Some (db', created)"
         "one_on_one_pool db' = one_on_one_pool (mark_user_sat_out db (guild_id g) s (utcnow env))"
    by blast
  have d: "distinct ?av" by (rule eligible_distinct[OF assms(1)])
  then have d1: "distinct (remove1 s ?av)" by simp
  have dp: "distinct (pair_members ps)"
    using ps(4) d1 by (metis mset_eq_imp_distinct_iff)
  have "set (pair_members ps) = set (remove1 s ?av)"
    using ps(4) by (metis set_mset_mset)
  then have notin: "s \<notin> set (pair_members ps)" using d by simp
  have sum: "mset (pair_members ps) + mset [s] = mset ?av"
    using ps(2,4) by simp
  from ps(2) eligible_subset[of env "guild_id g" db]
  obtain r0 where "get_one_on_one_pool_status db (guild_id g) s = Some r0"
    using available_has_row by blast
  then have "get_one_on_one_pool_status db' (guild_id g) s
               = Some (r0\<lparr>sat_out_at := Some (utcnow env)\<rparr>)"
    using status_pool_cong[OF run(2)] by (simp add: status_after_mark)
  with ps run dp notin sum False show ?thesis by auto
qed


theorem weekly_pairing_partition_witness:
  "pool_key_ok five_db \<and> 2 \<le> length (eligible demo_env (guild_id demo_guild) five_db) \<and>
   eligible demo_env (guild_id demo_guild) five_db = [11, 12, 13, 14, 15] \<and>
   (\<exists>db1 sit ps db' created.
     plan_matching demo_env (guild_id demo_guild) five_db = Some (Plan db1 sit ps) \<and>
     run_matching_for_guild demo_env demo_guild five_db = Some (db', created) \<and>
     length ps = length (eligible demo_env (guild_id demo_guild) five_db) div 2 \<and>
     distinct (pair_members ps) \<and>
     mset (pair_members ps) + mset (case sit of None \<Rightarrow> [] | Some s \<Rightarrow> [s])
       = mset (eligible demo_env (guild_id demo_guild) five_db) \<and>
     (even (length (eligible demo_env (guild_id demo_guild) five_db)) \<longrightarrow> sit = None) \<and>
     (odd (length (eligible demo_env (guild_id demo_guild) five_db)) \<longrightarrow>
        (\<exists>s r. sit = Some s \<and> s \<in> set (eligible demo_env (guild_id demo_guild) five_db) \<and>
               s \<notin> set (pair_members ps) \<and>
               get_one_on_one_pool_status db' (guild_id demo_guild) s = Some r \<and>
               sat_out_at r = Some (utcnow demo_env))))"
proof -
  have k: "pool_key_ok five_db" by code_simp
  have e: "eligible demo_env (guild_id demo_guild) five_db = [11, 12, 13, 14, 15]"
    by code_simp
  have n: "2 \<le> length (eligible demo_env (guild_id demo_guild) five_db)"
    unfolding e by simp
  show ?thesis
    using k n e weekly_pairing_partition[OF k n] by (intro conjI) assumption+
qed

text \<open>
  Claim C4, as amended. With an odd eligible count of at least two, the sit-out is drawn
  from the eligible members that are not among those who sat out since four weeks ago
  whenever there is such a member, and from all eligible members otherwise; so a member
  who sat out within four weeks is never chosen while an eligible member who did not is
  available.
\<close>

theorem sit_out_prefers_not_recent:
  assumes "2 \<le> length (eligible env gid db)" and "odd (length (eligible env gid db))"
  shows "\<exists>db1 s ps.
     plan_matching env gid db = Some (Plan db1 (Some s) ps) \<and>
     (if sit_out_candidates env gid db (eligible env gid db) \<noteq> []
      then s \<in> set (sit_out_candidates env gid db (eligible env gid db))
      else s \<in> set (eligible env gid db)) \<and>
     ((\<exists>v \<in> set (eligible env gid db).
          v \<notin> set (get_users_who_sat_out_recently db gid (four_weeks_ago env)))
        \<longrightarrow> s \<notin> set (get_users_who_sat_out_recently db gid (four_weeks_ago env)))"
proof -
  let ?av = "eligible env gid db"
  let ?cs = "sit_out_candidates env gid db ?av"
  from plan_odd[OF assms] obtain s ps where
    p: "plan_matching env gid db =
          Some (Plan (mark_user_sat_out db gid s (utcnow env)) (Some s) ps)"
       "pick_sit_out env gid db ?av = Some s" "s \<in> set ?av" by blast
  have ne: "?av \<noteq> []" using assms(1) by auto
  from pick_sit_out_mem[OF ne, of env gid db] p(2)
  have c: "?cs \<noteq> [] \<longrightarrow> s \<in> set ?cs" by simp
  have "(\<exists>v \<in> set ?av. v \<notin> set (get_users_who_sat_out_recently db gid (four_weeks_ago env)))
          \<longrightarrow> ?cs \<noteq> []"
    by (auto simp: sit_out_candidates_def filter_empty_conv)
  with c have "(\<exists>v \<in> set ?av. v \<notin> set (get_users_who_sat_out_recently db gid (four_weeks_ago env)))
          \<longrightarrow> s \<notin> set (get_users_who_sat_out_recently db gid (four_weeks_ago env))"
    by (auto simp: sit_out_candidates_def)
  with p c show ?thesis by auto
qed

theorem sit_out_prefers_not_recent_witness:
  "2 \<le> length (eligible demo_env 1 five_db) \<and> odd (length (eligible demo_env 1 five_db)) \<and>
   get_users_who_sat_out_recently five_db 1 (four_weeks_ago demo_env) = [13] \<and>
   (\<exists>db1 s ps. plan_matching demo_env 1 five_db = Some (Plan db1 (Some s) ps) \<and>
      s \<in> set (eligible demo_env 1 five_db) \<and> s \<noteq> 13)"
proof -
  have e: "eligible demo_env 1 five_db = [11, 12, 13, 14, 15]" by code_simp
  have r: "get_users_who_sat_out_recently five_db 1 (four_weeks_ago demo_env) = [13]"
    by code_simp
  have c: "sit_out_candidates demo_env 1 five_db [11, 12, 13, 14, 15] = [11, 12, 14, 15]"
    by code_simp
  have n: "2 \<le> length (eligible demo_env 1 five_db)" unfolding e by simp
  have o: "odd (length (eligible demo_env 1 five_db))" unfolding e by simp
  from sit_out_prefers_not_recent[OF n o] show ?thesis
    unfolding e r c by simp blast
qed

text \<open>
  Claim C4 as stated fails when every eligible member sat out within the four weeks:
  member 22 sat out two weeks ago and is chosen again although 21 and 23 are eligible too.
\<close>

theorem sit_out_recent_member_counterexample:
  "eligible demo_env 1 recent_db = [21, 22, 23] \<and>
   odd (length (eligible demo_env 1 recent_db)) \<and>
   plan_matching demo_env 1 recent_db =
     Some (Plan (mark_user_sat_out recent_db 1 22 (utcnow demo_env)) (Some 22) [(21, 23)]) \<and>
   22 \<in> set (get_users_who_sat_out_recently recent_db 1 (four_weeks_ago demo_env)) \<and>
   21 \<in> set (eligible demo_env 1 recent_db) \<and> 23 \<in> set (eligible demo_env 1 recent_db)"
  by code_simp

section \<open>The skip window\<close>

lemma available_iff_skip:
  assumes "pool_key_ok db" and "get_one_on_one_pool_status db gid u = Some r"
  shows "(u \<in> set (get_available_pool_members db gid w)) =
           (case skip_until r of None \<Rightarrow> True | Some s \<Rightarrow> s \<le> w)"
proof -
  have r: "r \<in> set (one_on_one_pool db)" "pool_guild_id r = gid" "pool_user_id r = u"
    using assms(2) unfolding get_one_on_one_pool_status_def by (auto dest: find_Some_D)
  show ?thesis
  proof
    assume "u \<in> set (get_available_pool_members db gid w)"
    then obtain r' where r': "r' \<in> set (one_on_one_pool db)" "pool_guild_id r' = gid"
      "pool_user_id r' = u" "not_skipping w r'"
      unfolding available_iff by blast
    from status_row[OF assms(1) r'(1-3)] assms(2) have "r' = r" by simp
    with r'(4) show "case skip_until r of None \<Rightarrow> True | Some s \<Rightarrow> s \<le> w"
      by (simp add: not_skipping_def)
  next
    assume "case skip_until r of None \<Rightarrow> True | Some s \<Rightarrow> s \<le> w"
    then have "not_skipping w r" by (simp add: not_skipping_def)
    with r show "u \<in> set (get_available_pool_members db gid w)"
      unfolding available_iff by blast
  qed
qed

text \<open>
  A timestamp whose date is as long as the week key is never the week key, and compares
  with the week key as its date does, except that an equal date makes it the greater.
\<close>

lemma date_prefix_le:
  "length d = length w \<Longrightarrow> x \<noteq> [] \<Longrightarrow> (d @ x \<le> w) = (d < (w :: string))"
proof (induction d w rule: list_induct2)
  case Nil
  then show ?case by simp
next
  case (Cons a d b w)
  then show ?case by simp
qed

lemma timestamp_vs_week:
  assumes "length date = length w"
  shows "(isoformat_utc date clock \<le> w) = (date < w)"
    and "(isoformat_utc date clock < w) = (date < w)"
    and "(w \<le> isoformat_utc date clock) = (w \<le> date)"
    and "take (length w) (isoformat_utc date clock) = date"
proof -
  have le: "(isoformat_utc date clock \<le> w) = (date < w)"
    unfolding isoformat_utc_def by (rule date_prefix_le[OF assms]) simp
  have ne: "isoformat_utc date clock \<noteq> w"
    using assms by (auto simp: isoformat_utc_def dest: arg_cong[where f=length])
  show "(isoformat_utc date clock \<le> w) = (date < w)" by (rule le)
  have lt: "(isoformat_utc date clock < w) = (date < w)"
    using le ne by (simp add: less_le)
  show "(isoformat_utc date clock < w) = (date < w)" by (rule lt)
  show "(w \<le> isoformat_utc date clock) = (w \<le> date)"
    using lt by (simp flip: not_less)
  show "take (length w) (isoformat_utc date clock) = date"
    using assms by (simp add: isoformat_utc_def)
qed

text \<open>What the skip command leaves in the member's row.\<close>

lemma skip_stores_timestamp:
  "get_one_on_one_pool_status (skip date clock db g u) g u =
     map_option (\<lambda>r. r\<lparr>skip_until := Some (isoformat_utc date clock)\<rparr>)
       (get_one_on_one_pool_status db g u)"
proof (cases "get_one_on_one_pool_status db g u")
  case None
  then show ?thesis by (simp add: skip_def)
next
  case (Some r)
  then show ?thesis
    unfolding skip_def get_one_on_one_pool_status_def set_one_on_one_skip_def
    by (simp add: find_map_upd[where P="\<lambda>r. pool_guild_id r = g \<and> pool_user_id r = u"])
qed

text \<open>
  Claim C5. Take a pool member whose \<open>skip_until\<close> is unset or a timestamp as the skip
  command stores it, its date as long as the week key. The member is available for the
  week exactly if \<open>skip_until\<close> is unset or strictly earlier than the week key, whether
  the whole timestamp or its date is compared; and a member whose \<open>skip_until\<close> is set
  and on or after the week key is not available, not eligible for the weekly run and not
  a candidate of a rematch.
\<close>

theorem skip_until_on_or_after_week_excluded:
  assumes "pool_key_ok db" and "get_one_on_one_pool_status db gid u = Some r"
    and "skip_until r = None \<or>
         (\<exists>date clock. skip_until r = Some (isoformat_utc date clock) \<and>
                       length date = length (get_week_start env))"
  shows "(u \<in> set (get_available_pool_members db gid (get_week_start env))) =
           (case skip_until r of None \<Rightarrow> True | Some s \<Rightarrow> s < get_week_start env) \<and>
         (u \<in> set (get_available_pool_members db gid (get_week_start env))) =
           (case skip_until r of
              None \<Rightarrow> True
            | Some s \<Rightarrow> take (length (get_week_start env)) s < get_week_start env) \<and>
         ((case skip_until r of None \<Rightarrow> False | Some s \<Rightarrow> get_week_start env \<le> s) \<longrightarrow>
            u \<notin> set (get_available_pool_members db gid (get_week_start env)) \<and>
            u \<notin> set (eligible env gid db) \<and>
            u \<notin> set (rematch_candidates env gid v db))"
proof -
  let ?w = "get_week_start env"
  note iff = available_iff_skip[OF assms(1,2), of ?w]
  have a: "(u \<in> set (get_available_pool_members db gid ?w)) =
             (case skip_until r of None \<Rightarrow> True | Some s \<Rightarrow> s < ?w)"
    using assms(3) iff by (auto simp: timestamp_vs_week)
  have b: "(u \<in> set (get_available_pool_members db gid ?w)) =
             (case skip_until r of None \<Rightarrow> True | Some s \<Rightarrow> take (length ?w) s < ?w)"
    using assms(3) iff by (auto simp: timestamp_vs_week)
  have c: "u \<notin> set (get_available_pool_members db gid ?w) \<and>
           u \<notin> set (eligible env gid db) \<and> u \<notin> set (rematch_candidates env gid v db)"
    if "case skip_until r of None \<Rightarrow> False | Some s \<Rightarrow> ?w \<le> s"
  proof -
    from that a have "u \<notin> set (get_available_pool_members db gid ?w)"
      by (auto split: option.splits)
    then show ?thesis by (auto simp: eligible_def rematch_candidates_def)
  qed
  from a b c show ?thesis by blast
qed

theorem skip_until_on_or_after_week_excluded_witness:
  "pool_key_ok skip_db \<and>
   get_one_on_one_pool_status skip_db 1 31
     = Some (member 1 31 (Some ''2024-01-08T00:00:00.000000+00:00'') None) \<and>
   get_one_on_one_pool_status (skip ''2024-01-08'' ''00:00:00.000000'' skip_db 1 31) 1 31
     = Some (member 1 31 (Some ''2024-01-08T00:00:00.000000+00:00'') None) \<and>
   skip_until (member 1 31 (Some ''2024-01-08T00:00:00.000000+00:00'') None)
     = Some (isoformat_utc ''2024-01-08'' ''00:00:00.000000'') \<and>
   length ''2024-01-08'' = length (get_week_start demo_env) \<and>
   get_week_start demo_env \<le> ''2024-01-08T00:00:00.000000+00:00'' \<and>
   31 \<notin> set (get_available_pool_members skip_db 1 (get_week_start demo_env)) \<and>
   31 \<notin> set (eligible demo_env 1 skip_db) \<and>
   31 \<notin> set (rematch_candidates demo_env 1 11 skip_db)"
proof -
  have k: "pool_key_ok skip_db" by code_simp
  have g: "get_one_on_one_pool_status skip_db 1 31
     = Some (member 1 31 (Some ''2024-01-08T00:00:00.000000+00:00'') None)" by code_simp
  have g2: "get_one_on_one_pool_status
              (skip ''2024-01-08'' ''00:00:00.000000'' skip_db 1 31) 1 31
     = Some (member 1 31 (Some ''2024-01-08T00:00:00.000000+00:00'') None)" by code_simp
  have f: "skip_until (member 1 31 (Some ''2024-01-08T00:00:00.000000+00:00'') None)
     = Some (isoformat_utc ''2024-01-08'' ''00:00:00.000000'')" by code_simp
  have l: "length ''2024-01-08'' = length (get_week_start demo_env)" by code_simp
  have w: "get_week_start demo_env \<le> ''2024-01-08T00:00:00.000000+00:00''" by code_simp
  have h: "skip_until (member 1 31 (Some ''2024-01-08T00:00:00.000000+00:00'') None) = None \<or>
         (\<exists>date clock.
            skip_until (member 1 31 (Some ''2024-01-08T00:00:00.000000+00:00'') None)
              = Some (isoformat_utc date clock) \<and>
            length date = length (get_week_start demo_env))"
    using f l by blast
  note t = skip_until_on_or_after_week_excluded[OF k g h, of 11]
  have s: "case skip_until (member 1 31 (Some ''2024-01-08T00:00:00.000000+00:00'') None) of
             None \<Rightarrow> False | Some s \<Rightarrow> get_week_start demo_env \<le> s"
    using w by (simp add: member_def)
  from t s have e: "31 \<notin> set (get_available_pool_members skip_db 1 (get_week_start demo_env)) \<and>
      31 \<notin> set (eligible demo_env 1 skip_db) \<and>
      31 \<notin> set (rematch_candidates demo_env 1 11 skip_db)" by blast
  show ?thesis
    by (rule conjI[OF k conjI[OF g conjI[OF g2 conjI[OF f conjI[OF l conjI[OF w e]]]]]])
qed

section \<open>The missing channel\<close>

text \<open>
  Claim C10. With an odd eligible count of at least two and no channel named 1-1s in the
  guild, the run returns 0 and the match table is unchanged, yet the database it leaves
  behind is the one in which an eligible member was marked as sat out at the time of the
  run.
\<close>

theorem sit_out_marked_without_channel:
  assumes "2 \<le> length (eligible env (guild_id g) db)"
    and "odd (length (eligible env (guild_id g) db))"
    and "get_one_on_ones_channel g = None"
  shows "\<exists>db' s r.
     run_matching_for_guild env g db = Some (db', Returned 0) \<and>
     one_on_one_matches db' = one_on_one_matches db \<and>
     s \<in> set (eligible env (guild_id g) db) \<and>
     db' = mark_user_sat_out db (guild_id g) s (utcnow env) \<and>
     get_one_on_one_pool_status db' (guild_id g) s = Some r \<and>
     sat_out_at r = Some (utcnow env)"
proof -
  let ?av = "eligible env (guild_id g) db"
  from plan_odd[OF assms(1,2)] obtain s ps where
    p: "plan_matching env (guild_id g) db =
          Some (Plan (mark_user_sat_out db (guild_id g) s (utcnow env)) (Some s) ps)"
       "s \<in> set ?av" by blast
  let ?db' = "mark_user_sat_out db (guild_id g) s (utcnow env)"
  have run: "run_matching_for_guild env g db = Some (?db', Returned 0)"
    using p(1) assms(3) by (simp add: run_matching_for_guild_def)
  from p(2) eligible_subset[of env "guild_id g" db]
  obtain r0 where "get_one_on_one_pool_status db (guild_id g) s = Some r0"
    using available_has_row by blast
  then have "get_one_on_one_pool_status ?db' (guild_id g) s
               = Some (r0\<lparr>sat_out_at := Some (utcnow env)\<rparr>)"
    by (simp add: status_after_mark)
  with run p(2) show ?thesis by (auto simp: mark_matches)
qed

theorem sit_out_marked_without_channel_witness:
  "2 \<le> length (eligible demo_env (guild_id bare_guild) five_db) \<and>
   odd (length (eligible demo_env (guild_id bare_guild) five_db)) \<and>
   get_one_on_ones_channel bare_guild = None \<and>
   get_one_on_one_pool_status five_db 1 15
     = Some (member 1 15 None (Some ''2023-11-05T10:00:00.000000'')) \<and>
   (\<exists>db' s r.
     run_matching_for_guild demo_env bare_guild five_db = Some (db', Returned 0) \<and>
     one_on_one_matches db' = [] \<and>
     get_one_on_one_pool_status db' (guild_id bare_guild) s = Some r \<and>
     sat_out_at r = Some ''2024-01-14T10:00:00.000000'')"
proof -
  have e: "eligible demo_env (guild_id bare_guild) five_db = [11, 12, 13, 14, 15]"
    by code_simp
  have n: "2 \<le> length (eligible demo_env (guild_id bare_guild) five_db)" unfolding e by simp
  have o: "odd (length (eligible demo_env (guild_id bare_guild) five_db))" unfolding e by simp
  have c: "get_one_on_ones_channel bare_guild = None" by code_simp
  have g: "get_one_on_one_pool_status five_db 1 15
     = Some (member 1 15 None (Some ''2023-11-05T10:00:00.000000''))" by code_simp
  have m: "one_on_one_matches five_db = []" by code_simp
  have u: "utcnow demo_env = ''2024-01-14T10:00:00.000000''" by code_simp
  from sit_out_marked_without_channel[OF n o c] show ?thesis
    unfolding e m u using c g by simp blast
qed

section \<open>Failing threads\<close>

lemma create_matches_char:
  "\<forall>i < length ps. \<not> attempt_escapes env ch (k + i) \<Longrightarrow>
   \<exists>rows. create_matches env gid ch k ps db n =
      (db\<lparr>one_on_one_matches := one_on_one_matches db @ rows\<rparr>,
       Returned (n + int (length (successful_pairs env ch k ps)))) \<and>
     map (\<lambda>m. (user1_id m, user2_id m)) rows = successful_pairs env ch k ps"
proof (induction env gid ch k ps db n rule: create_matches.induct)
  case (1 env gid ch k db n)
  then show ?case by simp
next
  case (2 env gid ch k user1 user2 pairs db n)
  have here: "\<not> attempt_escapes env ch k" using "2.prems" by force
  have rest: "\<forall>i < length pairs. \<not> attempt_escapes env ch (Suc k + i)"
    using "2.prems" by force
  show ?case
  proof (cases "create_thread env ch k")
    case (Inl e)
    then have h: "is_http_exception e" using here by (simp add: attempt_escapes_def)
    have no: "\<not> attempt_ok env ch k" using Inl by (simp add: attempt_ok_def)
    from "2.IH"(1)[OF Inl h rest] no Inl h show ?thesis by simp
  next
    case (Inr thread)
    show ?thesis
    proof (cases "post_instructions env thread")
      case (Some e)
      then have h: "is_http_exception e" using here Inr by (simp add: attempt_escapes_def)
      have no: "\<not> attempt_ok env ch k" using Inr Some by (simp add: attempt_ok_def)
      from "2.IH"(3)[OF Inr Some h rest] no Inr Some h show ?thesis by simp
    next
      case None
      then have ok: "attempt_ok env ch k" using Inr by (simp add: attempt_ok_def)
      let ?db1 = "fst (create_one_on_one_match db (current_timestamp env) gid
                         (get_week_start env) user1 user2 (Some thread))"
      from "2.IH"(2)[OF Inr None rest] obtain rows where
        r: "create_matches env gid ch (Suc k) pairs ?db1 (n + 1) =
              (?db1\<lparr>one_on_one_matches := one_on_one_matches ?db1 @ rows\<rparr>,
               Returned (n + 1 + int (length (successful_pairs env ch (Suc k) pairs))))"
           "map (\<lambda>m. (user1_id m, user2_id m)) rows = successful_pairs env ch (Suc k) pairs"
        by blast
      obtain row where row: "?db1 = db\<lparr>one_on_one_matches := one_on_one_matches db @ [row]\<rparr>"
        "user1_id row = user1" "user2_id row = user2"
        by (simp add: create_one_on_one_match_def Let_def)
      have "create_matches env gid ch k ((user1, user2) # pairs) db n =
              (db\<lparr>one_on_one_matches := one_on_one_matches db @ (row # rows)\<rparr>,
               Returned (n + int (length (successful_pairs env ch k ((user1, user2) # pairs)))))"
        using r(1) Inr None ok by (simp add: row(1))
      moreover have "map (\<lambda>m. (user1_id m, user2_id m)) (row # rows)
                       = successful_pairs env ch k ((user1, user2) # pairs)"
        using r(2) row(2,3) ok by simp
      ultimately show ?thesis by blast
    qed
  qed
qed

text \<open>
  An attempt whose exception the loop does not catch ends the run: the rows appended are
  those of the successful pairs before it, and no later pair gets a row.
\<close>

lemma create_matches_escape:
  "j < length ps \<Longrightarrow> attempt_escapes env ch (k + j) \<Longrightarrow>
   \<forall>i < j. \<not> attempt_escapes env ch (k + i) \<Longrightarrow>
   \<exists>rows e. create_matches env gid ch k ps db n =
      (db\<lparr>one_on_one_matches := one_on_one_matches db @ rows\<rparr>, Raised e) \<and>
     map (\<lambda>m. (user1_id m, user2_id m)) rows = successful_pairs env ch k (take j ps)"
proof (induction env gid ch k ps db n arbitrary: j rule: create_matches.induct)
  case (1 env gid ch k db n)
  then show ?case by simp
next
  case (2 env gid ch k user1 user2 pairs db n)
  show ?case
  proof (cases j)
    case 0
    then have esc: "attempt_escapes env ch k" using "2.prems"(2) by simp
    have "create_matches env gid ch k ((user1, user2) # pairs) db n
            = (db, Raised (case create_thread env ch k of
                             Inl e \<Rightarrow> e
                           | Inr t \<Rightarrow> the (post_instructions env t)))"
      using esc by (auto simp: attempt_escapes_def split: sum.splits option.splits)
    then show ?thesis using 0
      by (intro exI[of _ "[]"] exI) simp
  next
    case (Suc j')
    have here: "\<not> attempt_escapes env ch k" using "2.prems"(3) Suc by force
    have j': "j' < length pairs" using "2.prems"(1) Suc by simp
    have esc: "attempt_escapes env ch (Suc k + j')" using "2.prems"(2) Suc by simp
    have before: "\<forall>i < j'. \<not> attempt_escapes env ch (Suc k + i)"
      using "2.prems"(3) Suc by force
    show ?thesis
    proof (cases "create_thread env ch k")
      case (Inl e)
      then have h: "is_http_exception e" using here by (simp add: attempt_escapes_def)
      have no: "\<not> attempt_ok env ch k" using Inl by (simp add: attempt_ok_def)
      from "2.IH"(1)[OF Inl h j' esc before] no Inl h Suc show ?thesis by simp
    next
      case (Inr thread)
      show ?thesis
      proof (cases "post_instructions env thread")
        case (Some e)
        then have h: "is_http_exception e" using here Inr by (simp add: attempt_escapes_def)
        have no: "\<not> attempt_ok env ch k" using Inr Some by (simp add: attempt_ok_def)
        from "2.IH"(3)[OF Inr Some h j' esc before] no Inr Some h Suc show ?thesis by simp
      next
        case None
        then have ok: "attempt_ok env ch k" using Inr by (simp add: attempt_ok_def)
        let ?db1 = "fst (create_one_on_one_match db (current_timestamp env) gid
                           (get_week_start env) user1 user2 (Some thread))"
        from "2.IH"(2)[OF Inr None j' esc before] obtain rows e where
          r: "create_matches env gid ch (Suc k) pairs ?db1 (n + 1) =
                (?db1\<lparr>one_on_one_matches := one_on_one_matches ?db1 @ rows\<rparr>, Raised e)"
             "map (\<lambda>m. (user1_id m, user2_id m)) rows
                = successful_pairs env ch (Suc k) (take j' pairs)"
          by blast
        obtain row where row: "?db1 = db\<lparr>one_on_one_matches := one_on_one_matches db @ [row]\<rparr>"
          "user1_id row = user1" "user2_id row = user2"
          by (simp add: create_one_on_one_match_def Let_def)
        have "create_matches env gid ch k ((user1, user2) # pairs) db n =
                (db\<lparr>one_on_one_matches := one_on_one_matches db @ (row # rows)\<rparr>, Raised e)"
          using r(1) Inr None by (simp add: row(1))
        moreover have "map (\<lambda>m. (user1_id m, user2_id m)) (row # rows)
                         = successful_pairs env ch k (take j ((user1, user2) # pairs))"
          using r(2) row(2,3) ok Suc by simp
        ultimately show ?thesis by blast
      qed
    qed
  qed
qed

lemma successful_subset: "set (successful_pairs env ch k ps) \<subseteq> set ps"
  by (induction ps arbitrary: k) auto

lemma successful_mem:
  "i < length ps \<Longrightarrow> attempt_ok env ch (k + i) \<Longrightarrow> ps ! i \<in> set (successful_pairs env ch k ps)"
proof (induction ps arbitrary: k i)
  case Nil
  then show ?case by simp
next
  case (Cons p ps)
  show ?case
  proof (cases i)
    case 0
    with Cons.prems show ?thesis by simp
  next
    case (Suc j)
    with Cons.prems have "j < length ps" "attempt_ok env ch (Suc k + j)" by simp_all
    from Cons.IH[OF this] Suc show ?thesis by simp
  qed
qed

lemma failed_not_mem:
  "distinct ps \<Longrightarrow> i < length ps \<Longrightarrow> \<not> attempt_ok env ch (k + i) \<Longrightarrow>
     ps ! i \<notin> set (successful_pairs env ch k ps)"
proof (induction ps arbitrary: k i)
  case Nil
  then show ?case by simp
next
  case (Cons p ps)
  show ?case
  proof (cases i)
    case 0
    with Cons.prems successful_subset[of env ch "Suc k" ps] show ?thesis by auto
  next
    case (Suc j)
    with Cons.prems have j: "distinct ps" "j < length ps" "\<not> attempt_ok env ch (Suc k + j)"
      by simp_all
    from Cons.prems Suc have "ps ! j \<noteq> p" by auto
    with Cons.IH[OF j] Suc show ?thesis by simp
  qed
qed

lemma pair_members_distinct: "distinct (pair_members ps) \<Longrightarrow> distinct ps"
proof (induction ps)
  case Nil
  then show ?case by simp
next
  case (Cons p ps)
  obtain a b where p: "p = (a, b)" by (cases p)
  have "(a, b) \<in> set ps \<Longrightarrow> a \<in> set (pair_members ps)"
    by (force simp: pair_members_def)
  with Cons p show ?case by (auto simp: pair_members_def)
qed

lemma weekly_plan:
  assumes "pool_key_ok db" and "2 \<le> length (eligible env gid db)"
  shows "\<exists>db1 sit ps. plan_matching env gid db = Some (Plan db1 sit ps) \<and>
           one_on_one_matches db1 = one_on_one_matches db \<and> distinct (pair_members ps)"
proof (cases "even (length (eligible env gid db))")
  case True
  from plan_even[OF assms(2) True] obtain ps where
    ps: "plan_matching env gid db = Some (Plan db None ps)"
        "mset (pair_members ps) = mset (eligible env gid db)" by blast
  have "distinct (pair_members ps)"
    using ps(2) eligible_distinct[OF assms(1), of env gid]
    by (metis mset_eq_imp_distinct_iff)
  with ps(1) show ?thesis by blast
next
  case False
  from plan_odd[OF assms(2) False] obtain s ps where
    ps: "plan_matching env gid db =
           Some (Plan (mark_user_sat_out db gid s (utcnow env)) (Some s) ps)"
        "mset (pair_members ps) = mset (remove1 s (eligible env gid db))" by blast
  have "distinct (remove1 s (eligible env gid db))"
    using eligible_distinct[OF assms(1), of env gid] by simp
  then have "distinct (pair_members ps)"
    using ps(2) by (metis mset_eq_imp_distinct_iff)
  with ps(1) show ?thesis by (auto simp: mark_matches)
qed

text \<open>
  While every exception the platform raises in a run is a Forbidden or another
  HTTPException, one refused pair does not stop the others: the rows the run appends
  are, in order, exactly the pairs whose attempt succeeded, the returned count is their number,
  a refused pair leaves no row, and a pair whose attempt succeeds gets its row whatever
  happened to the pairs before it.
\<close>

lemma caught_failure_skips_pair:
  assumes "pool_key_ok db" and "2 \<le> length (eligible env (guild_id g) db)"
    and "get_one_on_ones_channel g = Some c"
    and "\<forall>k. \<not> attempt_escapes env (channel_id c) k"
  shows "\<exists>db1 sit ps db'.
     plan_matching env (guild_id g) db = Some (Plan db1 sit ps) \<and>
     run_matching_for_guild env g db =
       Some (db', Returned (int (length (successful_pairs env (channel_id c) 0 ps)))) \<and>
     take (length (one_on_one_matches db)) (one_on_one_matches db') = one_on_one_matches db \<and>
     map (\<lambda>m. (user1_id m, user2_id m))
         (drop (length (one_on_one_matches db)) (one_on_one_matches db'))
       = successful_pairs env (channel_id c) 0 ps \<and>
     (\<forall>k < length ps. attempt_ok env (channel_id c) k \<longrightarrow>
         ps ! k \<in> set (successful_pairs env (channel_id c) 0 ps)) \<and>
     (\<forall>k < length ps. \<not> attempt_ok env (channel_id c) k \<longrightarrow>
         ps ! k \<notin> set (successful_pairs env (channel_id c) 0 ps))"
proof -
  from weekly_plan[OF assms(1,2)] obtain db1 sit ps where
    p: "plan_matching env (guild_id g) db = Some (Plan db1 sit ps)"
       "one_on_one_matches db1 = one_on_one_matches db" "distinct (pair_members ps)"
    by blast
  have ne: "\<forall>i < length ps. \<not> attempt_escapes env (channel_id c) (0 + i)"
    using assms(4) by simp
  from create_matches_char[OF ne, of "guild_id g" db1 0] obtain rows where
    r: "create_matches env (guild_id g) (channel_id c) 0 ps db1 0 =
          (db1\<lparr>one_on_one_matches := one_on_one_matches db1 @ rows\<rparr>,
           Returned (int (length (successful_pairs env (channel_id c) 0 ps))))"
       "map (\<lambda>m. (user1_id m, user2_id m)) rows = successful_pairs env (channel_id c) 0 ps"
    by auto
  let ?db' = "db1\<lparr>one_on_one_matches := one_on_one_matches db1 @ rows\<rparr>"
  have run: "run_matching_for_guild env g db =
               Some (?db', Returned (int (length (successful_pairs env (channel_id c) 0 ps))))"
    using p(1) assms(3) r(1) by (simp add: run_matching_for_guild_def)
  have d: "distinct ps" using p(3) by (rule pair_members_distinct)
  have ok: "\<forall>k < length ps. attempt_ok env (channel_id c) k \<longrightarrow>
         ps ! k \<in> set (successful_pairs env (channel_id c) 0 ps)"
    using successful_mem[of _ ps env "channel_id c" 0] by simp
  have ko: "\<forall>k < length ps. \<not> attempt_ok env (channel_id c) k \<longrightarrow>
         ps ! k \<notin> set (successful_pairs env (channel_id c) 0 ps)"
    using failed_not_mem[OF d, of _ env "channel_id c" 0] by simp
  show ?thesis
    using p(1) run r(2) ok ko by (intro exI[of _ db1] exI[of _ sit] exI[of _ ps] exI[of _ ?db'])
      (simp add: p(2))
qed

text \<open>
  Claim C9 fails in the code when a thread creation dies of anything but an
  HTTPException. In the community of five the first pair's thread creation raises a
  connection error: the exception leaves the pairing loop, the run ends without a count,
  and the second pair (14, 12), whose thread the platform would have granted, gets no
  match; the sit-out is marked all the same. The rematch, which wraps the same platform
  calls in a handler for every exception, survives the same error.
\<close>

theorem uncaught_thread_failure_aborts_run:
  "get_one_on_ones_channel demo_guild = Some \<lparr>channel_id = 41, channel_name = ''1-1s''\<rparr> \<and>
   plan_matching broken_env 1 five_db =
     Some (Plan (mark_user_sat_out five_db 1 15 (utcnow broken_env)) (Some 15)
             [(11, 13), (14, 12)]) \<and>
   create_thread broken_env 41 0 = Inl OtherException \<and>
   attempt_ok broken_env 41 1 \<and>
   run_matching_for_guild broken_env demo_guild five_db =
     Some (mark_user_sat_out five_db 1 15 (utcnow broken_env), Raised OtherException) \<and>
   one_on_one_matches (mark_user_sat_out five_db 1 15 (utcnow broken_env)) = [] \<and>
   attempt_rematch broken_env 1 11 week_db = Some (week_db, [])"
  by code_simp

section \<open>The reminder scan\<close>

lemma find_unique:
  "distinct (map f xs) \<Longrightarrow> x \<in> set xs \<Longrightarrow> find (\<lambda>r. f r = f x) xs = Some x"
  by (induction xs) (auto simp: image_iff)

lemma get_match_by_id_row:
  "match_key_ok db \<Longrightarrow> m \<in> set (one_on_one_matches db) \<Longrightarrow>
     get_match_by_id db (match_id m) = Some m"
  unfolding match_key_ok_def get_match_by_id_def by (rule find_unique)

lemma send_reminder_char:
  "send_reminder env m db =
     (if reminder_posted env m
      then (increment_match_reminder db (match_id m),
            [Reminder (match_id m) (the (thread_id m)) (pending_users m)])
      else (db, []))"
  by (auto simp: send_reminder_def reminder_posted_def split: option.splits)

lemma increment_char:
  assumes "match_key_ok db" "m \<in> set (one_on_one_matches db)"
  shows "increment_match_reminder db (match_id m) =
     db\<lparr>one_on_one_matches :=
          map (\<lambda>r. if match_id r = match_id m
                   then r\<lparr>reminder_count := reminder_count r + 1\<rparr> else r)
            (one_on_one_matches db)\<rparr>"
proof -
  have "r = m" if "r \<in> set (one_on_one_matches db)" "match_id r = match_id m" for r
    using key_unique[of match_id "one_on_one_matches db" r m] that assms
    by (simp add: match_key_ok_def)
  then have "map (\<lambda>r. if match_id r = match_id m
                   then r\<lparr>reminder_count := reminder_count m + 1\<rparr> else r)
               (one_on_one_matches db)
           = map (\<lambda>r. if match_id r = match_id m
                   then r\<lparr>reminder_count := reminder_count r + 1\<rparr> else r)
               (one_on_one_matches db)"
    by (intro map_cong) auto
  then show ?thesis
    using get_match_by_id_row[OF assms]
    by (simp add: increment_match_reminder_def update_rows_def)
qed

lemma send_each_char:
  assumes "match_key_ok db" "distinct (map match_id ms)" "set ms \<subseteq> set (one_on_one_matches db)"
  shows "fst (send_each env ms db) =
           db\<lparr>one_on_one_matches :=
                map (\<lambda>r. if r \<in> set ms \<and> reminder_posted env r
                         then r\<lparr>reminder_count := reminder_count r + 1\<rparr> else r)
                  (one_on_one_matches db)\<rparr> \<and>
         snd (send_each env ms db) =
           concat (map (\<lambda>m. if reminder_posted env m
                             then [Reminder (match_id m) (the (thread_id m)) (pending_users m)]
                             else []) ms)"
  using assms
proof (induction ms arbitrary: db)
  case Nil
  then show ?case by (simp add: map_idI)
next
  case (Cons m ms)
  define g where "g = (\<lambda>r::match_row. if match_id r = match_id m \<and> reminder_posted env m
                 then r\<lparr>reminder_count := reminder_count r + 1\<rparr> else r)"
  define h where "h = (\<lambda>r::match_row. if r \<in> set ms \<and> reminder_posted env r
                 then r\<lparr>reminder_count := reminder_count r + 1\<rparr> else r)"
  define db1 where "db1 = fst (send_reminder env m db)"
  define rows where "rows = one_on_one_matches db"
  have m_in: "m \<in> set rows" using Cons.prems(3) by (simp add: rows_def)
  have dist: "distinct (map match_id rows)"
    using Cons.prems(1) by (simp add: match_key_ok_def rows_def)
  have db1: "db1 = db\<lparr>one_on_one_matches := map g rows\<rparr>"
  proof (cases "reminder_posted env m")
    case True
    then show ?thesis
      using increment_char[OF Cons.prems(1), of m] m_in
      by (simp add: db1_def send_reminder_char g_def rows_def)
  next
    case False
    then have "map g rows = rows" by (simp add: g_def map_idI)
    with False show ?thesis by (simp add: db1_def send_reminder_char rows_def)
  qed
  have gid: "match_id (g r) = match_id r" for r by (simp add: g_def)
  have ids: "map match_id (map g rows) = map match_id rows"
    by (simp add: gid comp_def)
  have k1: "match_key_ok db1"
    using dist by (simp add: db1 match_key_ok_def gid comp_def)
  have other: "match_id m' \<noteq> match_id m" if "m' \<in> set ms" for m'
    using Cons.prems(2) that by (auto simp: image_iff)
  have sub: "set ms \<subseteq> set (one_on_one_matches db1)"
  proof
    fix m' assume a: "m' \<in> set ms"
    then have "m' \<in> set rows" using Cons.prems(3) by (auto simp: rows_def)
    then have "g m' \<in> g ` set rows" by (rule imageI)
    moreover have "g m' = m'" using other[OF a] by (simp add: g_def)
    ultimately show "m' \<in> set (one_on_one_matches db1)" by (simp add: db1)
  qed
  have d: "distinct (map match_id ms)" using Cons.prems(2) by simp
  have IH1: "fst (send_each env ms db1) = db1\<lparr>one_on_one_matches := map h (one_on_one_matches db1)\<rparr>"
    and IH2: "snd (send_each env ms db1) =
           concat (map (\<lambda>m. if reminder_posted env m
                             then [Reminder (match_id m) (the (thread_id m)) (pending_users m)]
                             else []) ms)"
    using Cons.IH[OF k1 d sub] by (simp_all add: h_def)
  have comp: "h (g r) = (if r \<in> set (m # ms) \<and> reminder_posted env r
                 then r\<lparr>reminder_count := reminder_count r + 1\<rparr> else r)"
    if "r \<in> set rows" for r
  proof (cases "match_id r = match_id m")
    case True
    then have rm: "r = m"
      using key_unique[OF dist that m_in] by simp
    have n1: "m \<notin> set ms" using other by blast
    have n2: "m\<lparr>reminder_count := reminder_count m + 1\<rparr> \<notin> set ms"
      using other[of "m\<lparr>reminder_count := reminder_count m + 1\<rparr>"] by auto
    show ?thesis unfolding rm using n1 n2 by (simp add: g_def h_def)
  next
    case False
    then have "r \<noteq> m" by auto
    with False show ?thesis by (simp add: g_def h_def)
  qed
  have rows2: "map h (map g rows) =
        map (\<lambda>r. if r \<in> set (m # ms) \<and> reminder_posted env r
                 then r\<lparr>reminder_count := reminder_count r + 1\<rparr> else r) rows"
    unfolding map_map by (rule map_cong[OF refl]) (simp only: comp comp_apply)
  have unf: "send_each env (m # ms) db =
      (fst (send_each env ms db1), snd (send_reminder env m db) @ snd (send_each env ms db1))"
    by (simp add: case_prod_beta Let_def db1_def)
  have f: "fst (send_each env (m # ms) db) =
             db\<lparr>one_on_one_matches := map h (map g rows)\<rparr>"
    unfolding unf fst_conv IH1 by (simp add: db1)
  have s: "snd (send_each env (m # ms) db) =
           concat (map (\<lambda>m. if reminder_posted env m
                             then [Reminder (match_id m) (the (thread_id m)) (pending_users m)]
                             else []) (m # ms))"
    unfolding unf snd_conv IH2 by (simp add: send_reminder_char)
  show ?case
    unfolding f s rows2 rows_def[symmetric] by simp
qed

lemma send_reminders_guild_char:
  assumes "match_key_ok db"
  shows "fst (send_reminders_guild env gid db) =
           db\<lparr>one_on_one_matches :=
                map (\<lambda>r. if needs_reminder gid (get_week_start env) 2 r \<and> reminder_posted env r
                         then r\<lparr>reminder_count := reminder_count r + 1\<rparr> else r)
                  (one_on_one_matches db)\<rparr>"
    and "snd (send_reminders_guild env gid db) =
           concat (map (\<lambda>m. if reminder_posted env m
                             then [Reminder (match_id m) (the (thread_id m)) (pending_users m)]
                             else [])
                    (filter (needs_reminder gid (get_week_start env) 2) (one_on_one_matches db)))"
proof -
  let ?ms = "filter (needs_reminder gid (get_week_start env) 2) (one_on_one_matches db)"
  have d: "distinct (map match_id ?ms)"
    using assms by (simp add: match_key_ok_def distinct_map_filter)
  have sub: "set ?ms \<subseteq> set (one_on_one_matches db)" by auto
  note c = send_each_char[OF assms d sub, of env]
  have "map (\<lambda>r. if r \<in> set ?ms \<and> reminder_posted env r
                         then r\<lparr>reminder_count := reminder_count r + 1\<rparr> else r)
                  (one_on_one_matches db)
      = map (\<lambda>r. if needs_reminder gid (get_week_start env) 2 r \<and> reminder_posted env r
                         then r\<lparr>reminder_count := reminder_count r + 1\<rparr> else r)
                  (one_on_one_matches db)"
    by (rule map_cong[OF refl]) simp
  with c show "fst (send_reminders_guild env gid db) =
           db\<lparr>one_on_one_matches :=
                map (\<lambda>r. if needs_reminder gid (get_week_start env) 2 r \<and> reminder_posted env r
                         then r\<lparr>reminder_count := reminder_count r + 1\<rparr> else r)
                  (one_on_one_matches db)\<rparr>"
    by (simp add: send_reminders_guild_def get_matches_needing_reminder_def)
  from c show "snd (send_reminders_guild env gid db) =
           concat (map (\<lambda>m. if reminder_posted env m
                             then [Reminder (match_id m) (the (thread_id m)) (pending_users m)]
                             else []) ?ms)"
    by (simp add: send_reminders_guild_def get_matches_needing_reminder_def)
qed

text \<open>
  Claim C6. With the match table's primary key in force, a reminder scan of a guild
  leaves every match row as it was or adds exactly one to its \<open>reminder_count\<close>, and
  it adds one only to a row that had no \<open>completed_at\<close>, a count below 2 and a pending
  side, and only when the reminder reached the thread; so no count passes 2. Every
  reminder that is sent belongs to a row of this guild and week that was not completed,
  not confirmed by both sides and below the cap, and mentions its pending sides.
\<close>

theorem reminders_respect_cap:
  assumes "match_key_ok db"
  shows "list_all2
           (\<lambda>m m'. (m' = m \<or>
                     (m' = m\<lparr>reminder_count := reminder_count m + 1\<rparr> \<and>
                      completed_at m = None \<and> reminder_count m < 2 \<and>
                      (user1_status m = Pending \<or> user2_status m = Pending) \<and>
                      reminder_posted env m)) \<and>
                    (reminder_count m \<le> 2 \<longrightarrow> reminder_count m' \<le> 2))
           (one_on_one_matches db)
           (one_on_one_matches (fst (send_reminders_guild env gid db))) \<and>
         (\<forall>n \<in> set (snd (send_reminders_guild env gid db)).
            \<exists>m \<in> set (one_on_one_matches db).
              n = Reminder (match_id m) (the (thread_id m)) (pending_users m) \<and>
              pending_users m \<noteq> [] \<and> completed_at m = None \<and>
              \<not> (user1_status m = Confirmed \<and> user2_status m = Confirmed) \<and>
              reminder_count m < 2 \<and> match_guild_id m = gid \<and>
              week_start m = get_week_start env \<and> reminder_posted env m)"
proof -
  note c = send_reminders_guild_char[OF assms, of env gid]
  have a: "list_all2
           (\<lambda>m m'. (m' = m \<or>
                     (m' = m\<lparr>reminder_count := reminder_count m + 1\<rparr> \<and>
                      completed_at m = None \<and> reminder_count m < 2 \<and>
                      (user1_status m = Pending \<or> user2_status m = Pending) \<and>
                      reminder_posted env m)) \<and>
                    (reminder_count m \<le> 2 \<longrightarrow> reminder_count m' \<le> 2))
           (one_on_one_matches db)
           (one_on_one_matches (fst (send_reminders_guild env gid db)))"
    unfolding c(1) by (simp add: list_all2_map2 list_all2_same needs_reminder_def)
  have b: "\<exists>m \<in> set (one_on_one_matches db).
              n = Reminder (match_id m) (the (thread_id m)) (pending_users m) \<and>
              pending_users m \<noteq> [] \<and> completed_at m = None \<and>
              \<not> (user1_status m = Confirmed \<and> user2_status m = Confirmed) \<and>
              reminder_count m < 2 \<and> match_guild_id m = gid \<and>
              week_start m = get_week_start env \<and> reminder_posted env m"
    if "n \<in> set (snd (send_reminders_guild env gid db))" for n
  proof -
    from that obtain m where m: "m \<in> set (one_on_one_matches db)"
      "needs_reminder gid (get_week_start env) 2 m" "reminder_posted env m"
      "n = Reminder (match_id m) (the (thread_id m)) (pending_users m)"
      unfolding c(2) by (auto split: if_splits)
    from m(3) have "pending_users m \<noteq> []"
      by (auto simp: reminder_posted_def split: option.splits)
    with m show ?thesis by (auto simp: needs_reminder_def)
  qed
  from a b show ?thesis by blast
qed

theorem reminders_respect_cap_witness:
  "match_key_ok week_db \<and>
   map reminder_count (one_on_one_matches week_db) = [1, 0, 2, 0] \<and>
   map reminder_count (one_on_one_matches (fst (send_reminders_guild demo_env 1 week_db)))
     = [2, 0, 2, 0] \<and>
   snd (send_reminders_guild demo_env 1 week_db) = [Reminder 1 501 [11]] \<and>
   list_all2
     (\<lambda>m m'. (m' = m \<or>
               (m' = m\<lparr>reminder_count := reminder_count m + 1\<rparr> \<and>
                completed_at m = None \<and> reminder_count m < 2 \<and>
                (user1_status m = Pending \<or> user2_status m = Pending) \<and>
                reminder_posted demo_env m)) \<and>
              (reminder_count m \<le> 2 \<longrightarrow> reminder_count m' \<le> 2))
     (one_on_one_matches week_db)
     (one_on_one_matches (fst (send_reminders_guild demo_env 1 week_db))) \<and>
   (\<exists>m \<in> set (one_on_one_matches week_db).
      Reminder 1 501 [11] = Reminder (match_id m) (the (thread_id m)) (pending_users m) \<and>
      pending_users m \<noteq> [] \<and> completed_at m = None \<and>
      \<not> (user1_status m = Confirmed \<and> user2_status m = Confirmed) \<and>
      reminder_count m < 2 \<and> match_guild_id m = 1 \<and>
      week_start m = get_week_start demo_env \<and> reminder_posted demo_env m)"
proof -
  have k: "match_key_ok week_db" by code_simp
  have r0: "map reminder_count (one_on_one_matches week_db) = [1, 0, 2, 0]" by code_simp
  have r1: "map reminder_count
              (one_on_one_matches (fst (send_reminders_guild demo_env 1 week_db)))
            = [2, 0, 2, 0]" by code_simp
  have s: "snd (send_reminders_guild demo_env 1 week_db) = [Reminder 1 501 [11]]"
    by code_simp
  note t = reminders_respect_cap[OF k, of demo_env 1]
  have i: "Reminder 1 501 [11] \<in> set (snd (send_reminders_guild demo_env 1 week_db))"
    unfolding s by simp
  note t2 = bspec[OF conjunct2[OF t] i]
  show ?thesis
    by (rule conjI[OF k conjI[OF r0 conjI[OF r1 conjI[OF s conjI[OF conjunct1[OF t] t2]]]]])
qed

section \<open>The rematch\<close>

lemma fold_insert_users:
  "fold (\<lambda>row users. insert (user2_id row) (insert (user1_id row) users)) rows A =
     A \<union> (\<Union>row \<in> set rows. {user1_id row, user2_id row})"
  by (induction rows arbitrary: A) auto

lemma matched_this_week_iff:
  "u \<in> get_users_matched_this_week db g w \<longleftrightarrow>
     (\<exists>m \<in> set (one_on_one_matches db).
        match_guild_id m = g \<and> week_start m = w \<and> (user1_id m = u \<or> user2_id m = u))"
  unfolding get_users_matched_this_week_def fold_insert_users matches_of_week_def
  by auto

lemma fold_insert_partners:
  "fold (\<lambda>row partners. if user1_id row = user then insert (user2_id row) partners
                         else insert (user1_id row) partners) rows A =
     A \<union> (\<lambda>row. if user1_id row = user then user2_id row else user1_id row) ` set rows"
  by (induction rows arbitrary: A) auto

lemma partners_this_week_iff:
  "q \<in> get_user_partners_this_week db g u w \<longleftrightarrow>
     (\<exists>m \<in> set (one_on_one_matches db).
        match_guild_id m = g \<and> week_start m = w \<and>
        ((user1_id m = u \<and> user2_id m = q) \<or>
         (user1_id m \<noteq> u \<and> user2_id m = u \<and> user1_id m = q)))"
  unfolding get_user_partners_this_week_def fold_insert_partners matches_of_week_def
  by (auto simp: image_iff)

lemma rematch_candidates_iff:
  "q \<in> set (rematch_candidates env gid u db) \<longleftrightarrow>
     q \<in> set (get_available_pool_members db gid (get_week_start env)) \<and> q \<noteq> u \<and>
     q \<notin> get_user_partners_this_week db gid u (get_week_start env) \<and>
     q \<notin> get_users_matched_this_week db gid (get_week_start env)"
  by (auto simp: rematch_candidates_def)

lemma attempt_rematch_cases:
  "(rematch_candidates env gid u db = [] \<and>
      attempt_rematch env gid u db =
        Some (db, if send_dm env u = None then [NoMatchDM u] else [])) \<or>
   (rematch_candidates env gid u db \<noteq> [] \<and>
      attempt_rematch env gid u db = Some (db, [])) \<or>
   (\<exists>q t. q \<in> set (rematch_candidates env gid u db) \<and>
      attempt_rematch env gid u db =
        Some (db\<lparr>one_on_one_matches := one_on_one_matches db @
                  [\<lparr>match_id = next_match_id db, match_guild_id = gid,
                    week_start = get_week_start env, user1_id = u, user2_id = q,
                    thread_id = Some t, user1_status = Pending, user2_status = Pending,
                    reminder_count = 0, created_at = current_timestamp env,
                    completed_at = None\<rparr>]\<rparr>,
              [Instructions t u q]))"
proof (cases "rematch_candidates env gid u db = []")
  case True
  then show ?thesis by (simp add: attempt_rematch_def split: option.splits)
next
  case False
  from choice_mem[OF False, of "randbelow_choice env"] obtain q where
    q: "choice (randbelow_choice env) (rematch_candidates env gid u db) = Some q"
       "q \<in> set (rematch_candidates env gid u db)" by blast
  show ?thesis
    using False q
    by (auto simp: attempt_rematch_def create_one_on_one_match_def Let_def
             split: option.splits sum.splits)
qed

text \<open>
  Claim C7. A rematch attempt for a user always returns, also when the platform refuses
  what it sends. Every candidate it can propose differs from the user, is an available
  pool member, was not partnered with the user this week and appears in no match row of
  this guild and week. When there is no candidate the database is unchanged and the one
  thing the attempt does is send the direct notification to the user; the message
  arrives unless the platform raises, and then the exception is caught and nothing is
  sent. Otherwise the database is unchanged or gains exactly one row, pairing the user
  with one of the candidates.
\<close>

theorem rematch_partner_is_fresh:
  "\<exists>db' sent.
     attempt_rematch env gid u db = Some (db', sent) \<and>
     (rematch_candidates env gid u db = [] \<longrightarrow>
        db' = db \<and> sent = (if send_dm env u = None then [NoMatchDM u] else [])) \<and>
     (\<forall>q \<in> set (rematch_candidates env gid u db).
        q \<noteq> u \<and>
        q \<in> set (get_available_pool_members db gid (get_week_start env)) \<and>
        q \<notin> get_user_partners_this_week db gid u (get_week_start env) \<and>
        (\<forall>m \<in> set (one_on_one_matches db).
           match_guild_id m = gid \<and> week_start m = get_week_start env \<longrightarrow>
             user1_id m \<noteq> q \<and> user2_id m \<noteq> q)) \<and>
     (db' = db \<or>
      (\<exists>q row. q \<in> set (rematch_candidates env gid u db) \<and>
         db' = db\<lparr>one_on_one_matches := one_on_one_matches db @ [row]\<rparr> \<and>
         user1_id row = u \<and> user2_id row = q \<and> match_guild_id row = gid \<and>
         week_start row = get_week_start env)) \<and>
     (\<forall>n \<in> set sent.
        (n = NoMatchDM u \<and> rematch_candidates env gid u db = []) \<or>
        (\<exists>t q. n = Instructions t u q \<and> q \<in> set (rematch_candidates env gid u db)))"
proof -
  have fresh: "\<forall>q \<in> set (rematch_candidates env gid u db).
        q \<noteq> u \<and>
        q \<in> set (get_available_pool_members db gid (get_week_start env)) \<and>
        q \<notin> get_user_partners_this_week db gid u (get_week_start env) \<and>
        (\<forall>m \<in> set (one_on_one_matches db).
           match_guild_id m = gid \<and> week_start m = get_week_start env \<longrightarrow>
             user1_id m \<noteq> q \<and> user2_id m \<noteq> q)"
  proof
    fix q assume "q \<in> set (rematch_candidates env gid u db)"
    then have q: "q \<in> set (get_available_pool_members db gid (get_week_start env))"
      "q \<noteq> u" "q \<notin> get_user_partners_this_week db gid u (get_week_start env)"
      "q \<notin> get_users_matched_this_week db gid (get_week_start env)"
      by (simp_all add: rematch_candidates_iff)
    from q(4) have "\<forall>m \<in> set (one_on_one_matches db).
           match_guild_id m = gid \<and> week_start m = get_week_start env \<longrightarrow>
             user1_id m \<noteq> q \<and> user2_id m \<noteq> q"
      unfolding matched_this_week_iff by blast
    with q show "q \<noteq> u \<and>
        q \<in> set (get_available_pool_members db gid (get_week_start env)) \<and>
        q \<notin> get_user_partners_this_week db gid u (get_week_start env) \<and>
        (\<forall>m \<in> set (one_on_one_matches db).
           match_guild_id m = gid \<and> week_start m = get_week_start env \<longrightarrow>
             user1_id m \<noteq> q \<and> user2_id m \<noteq> q)" by blast
  qed
  from attempt_rematch_cases[of env gid u db]
  consider
    (none) "rematch_candidates env gid u db = []"
           "attempt_rematch env gid u db =
              Some (db, if send_dm env u = None then [NoMatchDM u] else [])"
  | (quiet) "rematch_candidates env gid u db \<noteq> []"
           "attempt_rematch env gid u db = Some (db, [])"
  | (made) q t where "q \<in> set (rematch_candidates env gid u db)"
      "attempt_rematch env gid u db =
        Some (db\<lparr>one_on_one_matches := one_on_one_matches db @
                  [\<lparr>match_id = next_match_id db, match_guild_id = gid,
                    week_start = get_week_start env, user1_id = u, user2_id = q,
                    thread_id = Some t, user1_status = Pending, user2_status = Pending,
                    reminder_count = 0, created_at = current_timestamp env,
                    completed_at = None\<rparr>]\<rparr>,
              [Instructions t u q])"
    by blast
  then show ?thesis
  proof cases
    case none
    with fresh show ?thesis by simp
  next
    case quiet
    with fresh show ?thesis by simp
  next
    case made
    have ne: "rematch_candidates env gid u db \<noteq> []" using made(1) by auto
    let ?row = "\<lparr>match_id = next_match_id db, match_guild_id = gid,
                    week_start = get_week_start env, user1_id = u, user2_id = q,
                    thread_id = Some t, user1_status = Pending, user2_status = Pending,
                    reminder_count = 0, created_at = current_timestamp env,
                    completed_at = None\<rparr>"
    let ?db' = "db\<lparr>one_on_one_matches := one_on_one_matches db @ [?row]\<rparr>"
    show ?thesis
    proof (intro exI[of _ ?db'] exI[of _ "[Instructions t u q]"] conjI)
      show "attempt_rematch env gid u db = Some (?db', [Instructions t u q])"
        by (rule made(2))
      show "rematch_candidates env gid u db = [] \<longrightarrow>
              ?db' = db \<and>
              [Instructions t u q] = (if send_dm env u = None then [NoMatchDM u] else [])"
        using ne by simp
      show "\<forall>q \<in> set (rematch_candidates env gid u db).
        q \<noteq> u \<and>
        q \<in> set (get_available_pool_members db gid (get_week_start env)) \<and>
        q \<notin> get_user_partners_this_week db gid u (get_week_start env) \<and>
        (\<forall>m \<in> set (one_on_one_matches db).
           match_guild_id m = gid \<and> week_start m = get_week_start env \<longrightarrow>
             user1_id m \<noteq> q \<and> user2_id m \<noteq> q)"
        by (rule fresh)
      show "?db' = db \<or>
        (\<exists>q row. q \<in> set (rematch_candidates env gid u db) \<and>
           ?db' = db\<lparr>one_on_one_matches := one_on_one_matches db @ [row]\<rparr> \<and>
           user1_id row = u \<and> user2_id row = q \<and> match_guild_id row = gid \<and>
           week_start row = get_week_start env)"
        by (rule disjI2, rule exI[of _ q], rule exI[of _ ?row]) (simp add: made(1))
      show "\<forall>n \<in> set [Instructions t u q].
        (n = NoMatchDM u \<and> rematch_candidates env gid u db = []) \<or>
        (\<exists>t q. n = Instructions t u q \<and> q \<in> set (rematch_candidates env gid u db))"
        using made(1) by simp
    qed
  qed
qed



theorem rematch_partner_is_fresh_witness:
  "rematch_candidates open_env 1 11 week_db = [15] \<and>
   attempt_rematch open_env 1 11 week_db =
     Some (week_db\<lparr>one_on_one_matches := one_on_one_matches week_db @
             [\<lparr>match_id = 5, match_guild_id = 1, week_start = ''2024-01-08'',
               user1_id = 11, user2_id = 15, thread_id = Some 600,
               user1_status = Pending, user2_status = Pending, reminder_count = 0,
               created_at = ''2024-01-14 10:00:00'', completed_at = None\<rparr>]\<rparr>,
           [Instructions 600 11 15]) \<and>
   rematch_candidates demo_env 1 31 skip_db = [] \<and>
   attempt_rematch demo_env 1 31 skip_db = Some (skip_db, [NoMatchDM 31]) \<and>
   attempt_rematch mute_env 1 31 skip_db = Some (skip_db, []) \<and>
   (\<exists>db' sent.
     attempt_rematch open_env 1 11 week_db = Some (db', sent) \<and>
     (rematch_candidates open_env 1 11 week_db = [] \<longrightarrow>
        db' = week_db \<and> sent = (if send_dm open_env 11 = None then [NoMatchDM 11] else [])) \<and>
     (\<forall>q \<in> set (rematch_candidates open_env 1 11 week_db).
        q \<noteq> 11 \<and>
        q \<in> set (get_available_pool_members week_db 1 (get_week_start open_env)) \<and>
        q \<notin> get_user_partners_this_week week_db 1 11 (get_week_start open_env) \<and>
        (\<forall>m \<in> set (one_on_one_matches week_db).
           match_guild_id m = 1 \<and> week_start m = get_week_start open_env \<longrightarrow>
             user1_id m \<noteq> q \<and> user2_id m \<noteq> q)) \<and>
     (db' = week_db \<or>
      (\<exists>q row. q \<in> set (rematch_candidates open_env 1 11 week_db) \<and>
         db' = week_db\<lparr>one_on_one_matches := one_on_one_matches week_db @ [row]\<rparr> \<and>
         user1_id row = 11 \<and> user2_id row = q \<and> match_guild_id row = 1 \<and>
         week_start row = get_week_start open_env)) \<and>
     (\<forall>n \<in> set sent.
        (n = NoMatchDM 11 \<and> rematch_candidates open_env 1 11 week_db = []) \<or>
        (\<exists>t q. n = Instructions t 11 q \<and> q \<in> set (rematch_candidates open_env 1 11 week_db))))"
proof -
  have c: "rematch_candidates open_env 1 11 week_db = [15]" by code_simp
  have a: "attempt_rematch open_env 1 11 week_db =
     Some (week_db\<lparr>one_on_one_matches := one_on_one_matches week_db @
             [\<lparr>match_id = 5, match_guild_id = 1, week_start = ''2024-01-08'',
               user1_id = 11, user2_id = 15, thread_id = Some 600,
               user1_status = Pending, user2_status = Pending, reminder_count = 0,
               created_at = ''2024-01-14 10:00:00'', completed_at = None\<rparr>]\<rparr>,
           [Instructions 600 11 15])" by code_simp
  have c0: "rematch_candidates demo_env 1 31 skip_db = []" by code_simp
  have a0: "attempt_rematch demo_env 1 31 skip_db = Some (skip_db, [NoMatchDM 31])"
    by code_simp
  have a1: "attempt_rematch mute_env 1 31 skip_db = Some (skip_db, [])"
    by code_simp
  note t = rematch_partner_is_fresh[of open_env 1 11 week_db]
  show ?thesis
    by (rule conjI[OF c conjI[OF a conjI[OF c0 conjI[OF a0 conjI[OF a1 t]]]]])
qed

section \<open>Reactions\<close>

lemma get_by_id_update:
  assumes "\<And>r. match_id (f r) = match_id r"
  shows "get_match_by_id (update_rows mid f db) mid = map_option f (get_match_by_id db mid)"
  unfolding get_match_by_id_def update_rows_def
  using find_map_upd[where P="\<lambda>r. match_id r = mid" and f=f] assms by simp

lemma get_by_id_append:
  "get_match_by_id db mid = Some r \<Longrightarrow>
     get_match_by_id (db\<lparr>one_on_one_matches := one_on_one_matches db @ rows\<rparr>) mid = Some r"
proof -
  have "find P xs = Some r \<Longrightarrow> find P (xs @ ys) = Some r" for P and xs ys :: "match_row list"
    by (induction xs) auto
  then show "get_match_by_id db mid = Some r \<Longrightarrow>
     get_match_by_id (db\<lparr>one_on_one_matches := one_on_one_matches db @ rows\<rparr>) mid = Some r"
    by (simp add: get_match_by_id_def)
qed

lemma decline_state:
  assumes "match_key_ok db" and "m \<in> set (one_on_one_matches db)"
    and "u = user1_id m \<or> u = user2_id m"
  shows "get_match_by_id
           (complete_match (update_match_status db (match_id m) u Declined) (match_id m) ts)
           (match_id m)
         = Some (if u = user1_id m
                 then m\<lparr>user1_status := Declined, completed_at := Some ts\<rparr>
                 else m\<lparr>user2_status := Declined, completed_at := Some ts\<rparr>)"
proof -
  have g: "get_match_by_id db (match_id m) = Some m"
    by (rule get_match_by_id_row[OF assms(1,2)])
  show ?thesis
  proof (cases "u = user1_id m")
    case True
    then show ?thesis
      using g by (simp add: complete_match_def update_match_status_def get_by_id_update)
  next
    case False
    with assms(3) have "u = user2_id m" by simp
    with False show ?thesis
      using g by (simp add: complete_match_def update_match_status_def get_by_id_update)
  qed
qed

lemma rematch_outcome:
  "\<exists>db' more.
     attempt_rematch env gid u db = Some (db', more) \<and>
     (\<forall>n \<in> set more. n = NoMatchDM u \<or> (\<exists>t q. n = Instructions t u q)) \<and>
     (db' = db \<or>
      (\<exists>row. db' = db\<lparr>one_on_one_matches := one_on_one_matches db @ [row]\<rparr> \<and>
             user1_id row = u))"
  using attempt_rematch_cases[of env gid u db]
  by (elim disjE exE conjE) (simp_all, force)

text \<open>
  Claim C8. When a participant of a stored match declines, whatever the two statuses
  were, the row of the match gets that user's status set to declined and
  \<open>completed_at\<close> set to the time of the call, and nothing else in it changes; the
  handler then runs the rematch attempt on that state for the other participant, who
  differs from the decliner, and returns what the attempt returns. Every message of the
  attempt is addressed to the partner and a row it adds has the partner as first user.
\<close>

theorem decline_completes_and_rematches_partner:
  assumes "match_key_ok db" and "m \<in> set (one_on_one_matches db)"
    and "payload_user_id p = user1_id m \<or> payload_user_id p = user2_id m"
  shows "\<exists>db2 db' more.
     db2 = complete_match
             (update_match_status db (match_id m) (payload_user_id p) Declined)
             (match_id m) (utcnow env) \<and>
     get_match_by_id db2 (match_id m) =
       Some (if payload_user_id p = user1_id m
             then m\<lparr>user1_status := Declined, completed_at := Some (utcnow env)\<rparr>
             else m\<lparr>user2_status := Declined, completed_at := Some (utcnow env)\<rparr>) \<and>
     attempt_rematch env (payload_guild_id p) (partner_of p m) db2 = Some (db', more) \<and>
     handle_decline env p m db =
       Some (db', (if get_channel env (payload_channel_id p)
                   then [DeclineNotice (payload_channel_id p) (payload_user_id p)
                           (partner_of p m)]
                   else []) @ more) \<and>
     get_match_by_id db' (match_id m) = get_match_by_id db2 (match_id m) \<and>
     (partner_of p m = user1_id m \<or> partner_of p m = user2_id m) \<and>
     (user1_id m \<noteq> user2_id m \<longrightarrow> partner_of p m \<noteq> payload_user_id p) \<and>
     (\<forall>n \<in> set more. n = NoMatchDM (partner_of p m) \<or>
                       (\<exists>t q. n = Instructions t (partner_of p m) q)) \<and>
     (db' = db2 \<or>
      (\<exists>row. db' = db2\<lparr>one_on_one_matches := one_on_one_matches db2 @ [row]\<rparr> \<and>
             user1_id row = partner_of p m))"
proof -
  define db2 where "db2 = complete_match
             (update_match_status db (match_id m) (payload_user_id p) Declined)
             (match_id m) (utcnow env)"
  define row where "row = (if payload_user_id p = user1_id m
             then m\<lparr>user1_status := Declined, completed_at := Some (utcnow env)\<rparr>
             else m\<lparr>user2_status := Declined, completed_at := Some (utcnow env)\<rparr>)"
  have g2: "get_match_by_id db2 (match_id m) = Some row"
    unfolding db2_def row_def by (rule decline_state[OF assms])
  from rematch_outcome[of env "payload_guild_id p" "partner_of p m" db2]
  obtain db' more where r:
    "attempt_rematch env (payload_guild_id p) (partner_of p m) db2 = Some (db', more)"
    "\<forall>n \<in> set more. n = NoMatchDM (partner_of p m) \<or>
                       (\<exists>t q. n = Instructions t (partner_of p m) q)"
    "db' = db2 \<or>
      (\<exists>row. db' = db2\<lparr>one_on_one_matches := one_on_one_matches db2 @ [row]\<rparr> \<and>
             user1_id row = partner_of p m)"
    by blast
  have hd: "handle_decline env p m db =
       Some (db', (if get_channel env (payload_channel_id p)
                   then [DeclineNotice (payload_channel_id p) (payload_user_id p)
                           (partner_of p m)]
                   else []) @ more)"
    using r(1) by (simp add: handle_decline_def Let_def db2_def)
  have g': "get_match_by_id db' (match_id m) = get_match_by_id db2 (match_id m)"
    using r(3) g2 get_by_id_append[OF g2] by auto
  have pt: "partner_of p m = user1_id m \<or> partner_of p m = user2_id m"
    by (simp add: partner_of_def)
  have pn: "user1_id m \<noteq> user2_id m \<longrightarrow> partner_of p m \<noteq> payload_user_id p"
    using assms(3) by (auto simp: partner_of_def)
  show ?thesis
    using g2 r hd g' pt pn unfolding row_def db2_def by blast
qed


theorem decline_completes_and_rematches_partner_witness:
  "match_key_ok week_db \<and>
   pairing 1 11 12 501 Pending Confirmed 1 None \<in> set (one_on_one_matches week_db) \<and>
   (payload_user_id (reaction 12 501 CrossMark)
      = user1_id (pairing 1 11 12 501 Pending Confirmed 1 None) \<or>
    payload_user_id (reaction 12 501 CrossMark)
      = user2_id (pairing 1 11 12 501 Pending Confirmed 1 None)) \<and>
   partner_of (reaction 12 501 CrossMark) (pairing 1 11 12 501 Pending Confirmed 1 None) = 11 \<and>
   handle_decline open_env (reaction 12 501 CrossMark)
       (pairing 1 11 12 501 Pending Confirmed 1 None) week_db =
     Some (week_db\<lparr>one_on_one_matches :=
             [pairing 1 11 12 501 Pending Declined 1 (Some ''2024-01-14T10:00:00.000000''),
              pairing 2 13 14 502 Confirmed Confirmed 0 (Some ''2024-01-09T12:00:00.000000''),
              pairing 3 17 18 503 Pending Pending 2 None,
              pairing 4 19 20 504 Pending Declined 0 (Some ''2024-01-08T09:00:00.000000''),
              \<lparr>match_id = 5, match_guild_id = 1, week_start = ''2024-01-08'',
               user1_id = 11, user2_id = 15, thread_id = Some 600,
               user1_status = Pending, user2_status = Pending, reminder_count = 0,
               created_at = ''2024-01-14 10:00:00'', completed_at = None\<rparr>]\<rparr>,
           [DeclineNotice 501 12 11, Instructions 600 11 15]) \<and>
   (\<exists>db2 db' more.
     db2 = complete_match
             (update_match_status week_db
                (match_id (pairing 1 11 12 501 Pending Confirmed 1 None))
                (payload_user_id (reaction 12 501 CrossMark)) Declined)
             (match_id (pairing 1 11 12 501 Pending Confirmed 1 None)) (utcnow open_env) \<and>
     attempt_rematch open_env (payload_guild_id (reaction 12 501 CrossMark))
       (partner_of (reaction 12 501 CrossMark) (pairing 1 11 12 501 Pending Confirmed 1 None))
       db2 = Some (db', more) \<and>
     (db' = db2 \<or>
      (\<exists>row. db' = db2\<lparr>one_on_one_matches := one_on_one_matches db2 @ [row]\<rparr> \<and>
             user1_id row = partner_of (reaction 12 501 CrossMark)
                              (pairing 1 11 12 501 Pending Confirmed 1 None))))"
proof -
  have k: "match_key_ok week_db" by code_simp
  have i: "pairing 1 11 12 501 Pending Confirmed 1 None \<in> set (one_on_one_matches week_db)"
    by code_simp
  have u: "payload_user_id (reaction 12 501 CrossMark)
             = user1_id (pairing 1 11 12 501 Pending Confirmed 1 None) \<or>
           payload_user_id (reaction 12 501 CrossMark)
             = user2_id (pairing 1 11 12 501 Pending Confirmed 1 None)"
    by code_simp
  have q: "partner_of (reaction 12 501 CrossMark)
             (pairing 1 11 12 501 Pending Confirmed 1 None) = 11" by code_simp
  have h: "handle_decline open_env (reaction 12 501 CrossMark)
       (pairing 1 11 12 501 Pending Confirmed 1 None) week_db =
     Some (week_db\<lparr>one_on_one_matches :=
             [pairing 1 11 12 501 Pending Declined 1 (Some ''2024-01-14T10:00:00.000000''),
              pairing 2 13 14 502 Confirmed Confirmed 0 (Some ''2024-01-09T12:00:00.000000''),
              pairing 3 17 18 503 Pending Pending 2 None,
              pairing 4 19 20 504 Pending Declined 0 (Some ''2024-01-08T09:00:00.000000''),
              \<lparr>match_id = 5, match_guild_id = 1, week_start = ''2024-01-08'',
               user1_id = 11, user2_id = 15, thread_id = Some 600,
               user1_status = Pending, user2_status = Pending, reminder_count = 0,
               created_at = ''2024-01-14 10:00:00'', completed_at = None\<rparr>]\<rparr>,
           [DeclineNotice 501 12 11, Instructions 600 11 15])" by code_simp
  from decline_completes_and_rematches_partner[OF k i u, of open_env]
  have "\<exists>db2 db' more.
     db2 = complete_match
             (update_match_status week_db
                (match_id (pairing 1 11 12 501 Pending Confirmed 1 None))
                (payload_user_id (reaction 12 501 CrossMark)) Declined)
             (match_id (pairing 1 11 12 501 Pending Confirmed 1 None)) (utcnow open_env) \<and>
     attempt_rematch open_env (payload_guild_id (reaction 12 501 CrossMark))
       (partner_of (reaction 12 501 CrossMark) (pairing 1 11 12 501 Pending Confirmed 1 None))
       db2 = Some (db', more) \<and>
     (db' = db2 \<or>
      (\<exists>row. db' = db2\<lparr>one_on_one_matches := one_on_one_matches db2 @ [row]\<rparr> \<and>
             user1_id row = partner_of (reaction 12 501 CrossMark)
                              (pairing 1 11 12 501 Pending Confirmed 1 None)))"
    by blast
  then show ?thesis
    by (rule conjI[OF k conjI[OF i conjI[OF u conjI[OF q conjI[OF h]]]]])
qed











text \<open>
  Claim C1, as amended. A reaction is handed to the confirm handler (to the decline
  handler) exactly if it is not the bot's own, its emoji is the check mark (the cross),
  its channel is the thread of a stored match and the reacting user is one of the two
  participants of that match; \<open>completed_at\<close> plays no part. Every other reaction
  leaves the database unchanged.
\<close>

theorem reaction_dispatch_guard:
  "(dispatch_reaction env p db = ToConfirm m \<longleftrightarrow>
      payload_user_id p \<noteq> bot_user_id env \<and> payload_emoji p = WhiteCheckMark \<and>
      get_match_by_thread db (payload_channel_id p) = Some m \<and>
      (payload_user_id p = user1_id m \<or> payload_user_id p = user2_id m)) \<and>
   (dispatch_reaction env p db = ToDecline m \<longleftrightarrow>
      payload_user_id p \<noteq> bot_user_id env \<and> payload_emoji p = CrossMark \<and>
      get_match_by_thread db (payload_channel_id p) = Some m \<and>
      (payload_user_id p = user1_id m \<or> payload_user_id p = user2_id m)) \<and>
   (get_match_by_thread db (payload_channel_id p) = Some m \<longrightarrow>
      m \<in> set (one_on_one_matches db) \<and> thread_id m = Some (payload_channel_id p)) \<and>
   (dispatch_reaction env p db = Ignored \<longrightarrow> on_raw_reaction_add env p db = Some (db, []))"
proof -
  have a: "dispatch_reaction env p db = ToConfirm m \<longleftrightarrow>
      payload_user_id p \<noteq> bot_user_id env \<and> payload_emoji p = WhiteCheckMark \<and>
      get_match_by_thread db (payload_channel_id p) = Some m \<and>
      (payload_user_id p = user1_id m \<or> payload_user_id p = user2_id m)"
    by (cases "payload_emoji p")
       (auto simp: dispatch_reaction_def split: option.splits)
  have b: "dispatch_reaction env p db = ToDecline m \<longleftrightarrow>
      payload_user_id p \<noteq> bot_user_id env \<and> payload_emoji p = CrossMark \<and>
      get_match_by_thread db (payload_channel_id p) = Some m \<and>
      (payload_user_id p = user1_id m \<or> payload_user_id p = user2_id m)"
    by (cases "payload_emoji p")
       (auto simp: dispatch_reaction_def split: option.splits)
  have c: "get_match_by_thread db (payload_channel_id p) = Some m \<longrightarrow>
      m \<in> set (one_on_one_matches db) \<and> thread_id m = Some (payload_channel_id p)"
    unfolding get_match_by_thread_def using find_Some_D by fastforce
  have d: "dispatch_reaction env p db = Ignored \<longrightarrow>
             on_raw_reaction_add env p db = Some (db, [])"
    by (simp add: on_raw_reaction_add_def)
  from a b c d show ?thesis by blast
qed

theorem reaction_dispatch_guard_witness:
  "dispatch_reaction demo_env (reaction 11 501 WhiteCheckMark) week_db
     = ToConfirm (pairing 1 11 12 501 Pending Confirmed 1 None) \<and>
   dispatch_reaction demo_env (reaction 15 501 WhiteCheckMark) week_db = Ignored \<and>
   dispatch_reaction demo_env (reaction 11 777 CrossMark) week_db = Ignored \<and>
   dispatch_reaction demo_env (reaction 11 501 OtherEmoji) week_db = Ignored \<and>
   dispatch_reaction demo_env (reaction 999 501 CrossMark) week_db = Ignored \<and>
   payload_user_id (reaction 11 501 WhiteCheckMark) \<noteq> bot_user_id demo_env \<and>
   get_match_by_thread week_db (payload_channel_id (reaction 11 501 WhiteCheckMark))
     = Some (pairing 1 11 12 501 Pending Confirmed 1 None) \<and>
   pairing 1 11 12 501 Pending Confirmed 1 None \<in> set (one_on_one_matches week_db) \<and>
   on_raw_reaction_add demo_env (reaction 15 501 WhiteCheckMark) week_db = Some (week_db, [])"
proof -
  have i: "dispatch_reaction demo_env (reaction 15 501 WhiteCheckMark) week_db = Ignored"
    by code_simp
  have c: "dispatch_reaction demo_env (reaction 11 501 WhiteCheckMark) week_db
     = ToConfirm (pairing 1 11 12 501 Pending Confirmed 1 None)" by code_simp
  have o: "dispatch_reaction demo_env (reaction 11 777 CrossMark) week_db = Ignored"
    "dispatch_reaction demo_env (reaction 11 501 OtherEmoji) week_db = Ignored"
    "dispatch_reaction demo_env (reaction 999 501 CrossMark) week_db = Ignored"
    by code_simp+
  note t1 = reaction_dispatch_guard[of demo_env "reaction 11 501 WhiteCheckMark" week_db
              "pairing 1 11 12 501 Pending Confirmed 1 None"]
  note t2 = reaction_dispatch_guard[of demo_env "reaction 15 501 WhiteCheckMark" week_db
              "pairing 1 11 12 501 Pending Confirmed 1 None"]
  from t1 c have g: "payload_user_id (reaction 11 501 WhiteCheckMark) \<noteq> bot_user_id demo_env"
    "get_match_by_thread week_db (payload_channel_id (reaction 11 501 WhiteCheckMark))
       = Some (pairing 1 11 12 501 Pending Confirmed 1 None)"
    by blast+
  with t1 have m: "pairing 1 11 12 501 Pending Confirmed 1 None \<in> set (one_on_one_matches week_db)"
    by blast
  from t2 i have r: "on_raw_reaction_add demo_env (reaction 15 501 WhiteCheckMark) week_db
                       = Some (week_db, [])" by blast
  from c i o g m r show ?thesis by blast
qed

text \<open>
  Claim C1 as stated fails on a completed match: match 2 was completed by two
  confirmations on the 9th; the cross of member 13 on the 14th is dispatched to the
  decline handler, which sets that status to declined and stamps \<open>completed_at\<close> anew.
\<close>

theorem completed_match_reaction_counterexample:
  "get_match_by_thread week_db 502
     = Some (pairing 2 13 14 502 Confirmed Confirmed 0 (Some ''2024-01-09T12:00:00.000000'')) \<and>
   completed_at (pairing 2 13 14 502 Confirmed Confirmed 0 (Some ''2024-01-09T12:00:00.000000''))
     = Some ''2024-01-09T12:00:00.000000'' \<and>
   dispatch_reaction demo_env (reaction 13 502 CrossMark) week_db
     = ToDecline (pairing 2 13 14 502 Confirmed Confirmed 0
                    (Some ''2024-01-09T12:00:00.000000'')) \<and>
   on_raw_reaction_add demo_env (reaction 13 502 CrossMark) week_db
     = Some (reopened, [DeclineNotice 502 13 14]) \<and>
   map user1_status (one_on_one_matches week_db) = [Pending, Confirmed, Pending, Pending] \<and>
   map user1_status (one_on_one_matches reopened) = [Pending, Declined, Pending, Pending]"
  by code_simp

end
